theory Spec2Isabelle
  imports Complex_Main "HOL-Library.AList"
begin

section \<open>Scope of the model\<close>

text \<open>
  A shallow embedding of the map-drape tile atlas (class \<open>TerrainMapAtlas\<close>): the
  per-frame \<open>update\<close> entry point, its debounce and throttle gates, the trapezoid
  quad-tree selector, the per-zoom atlas compositor of both level-of-detail paths, the
  asynchronous tile-fetch completion handlers, \<open>_ensureZoomState\<close> and \<open>clear\<close>.

  JavaScript objects with identity that closures capture (the atlas object held in
  \<open>this._state\<close>) live in an explicit store; a \<open>Map\<close> is an association list in
  insertion order, a \<open>Set\<close> a duplicate-free list in insertion order. The tile
  source's reference counts are the net balance of \<open>pin\<close> and \<open>unpin\<close> calls per key,
  the GPU is a log of render-target events. Finite JavaScript numbers are integers where
  the code truncates them with \<open>| 0\<close> and reals elsewhere. Strings are lists of
  8-bit characters. Scene graphs, shader uniforms and texture filter settings are
  outside the model.
\<close>

section \<open>JavaScript numbers\<close>

text \<open>\<open>x | 0\<close>: conversion to a signed 32-bit integer, wrapping modulo \<open>2^32\<close>.\<close>

definition toInt32 :: "int \<Rightarrow> int" where
  "toInt32 i = (i + 2 ^ 31) mod 2 ^ 32 - 2 ^ 31"

text \<open>\<open>a || b\<close> on numbers that may be undefined: \<open>undefined\<close> and \<open>0\<close> are falsy.\<close>

definition js_or :: "int option \<Rightarrow> int option \<Rightarrow> int option" where
  "js_or a b = (case a of None \<Rightarrow> b | Some v \<Rightarrow> if v = 0 then b else Some v)"

section \<open>JavaScript strings\<close>

text \<open>\<open>s.split(d)\<close> for a one-character separator: the empty string gives one empty part.\<close>

fun js_split :: "char \<Rightarrow> string \<Rightarrow> string list" where
  "js_split d [] = [[]]"
| "js_split d (c # cs) =
     (if c = d then [] # js_split d cs
      else (case js_split d cs of p # ps \<Rightarrow> (c # p) # ps | [] \<Rightarrow> [[c]]))"

text \<open>\<open>parts[i]\<close>: \<open>undefined\<close> past the end of the array.\<close>

definition js_nth :: "'a list \<Rightarrow> nat \<Rightarrow> 'a option" where
  "js_nth xs i = (if i < length xs then Some (xs ! i) else None)"

text \<open>
  An integer in a template literal: decimal digits, with a minus sign when negative
  (JavaScript writes integers so below \<open>10^21\<close>, which bounds every tile coordinate).
\<close>

function digits :: "nat \<Rightarrow> string" where
  "digits n = (if n < 10 then [''0123456789'' ! n]
               else digits (n div 10) @ [''0123456789'' ! (n mod 10)])"
  by pat_completeness auto
termination
  by (relation "measure id") auto

definition render_int :: "int \<Rightarrow> string" where
  "render_int i = (if i < 0 then CHR ''-'' # digits (nat (- i)) else digits (nat i))"

text \<open>
  \<open>Number(s)\<close> of a string or of \<open>undefined\<close>, as far as \<open>Number.isFinite\<close> tells:
  \<open>None\<close> stands for \<open>NaN\<close> and for an infinity. White space around the literal is
  dropped and the empty string is \<open>0\<close>; a literal is a signed decimal with an optional
  fraction and exponent, or an unsigned hexadecimal, octal or binary integer. The value
  is the real number written, not the nearest double.
\<close>

definition js_space :: "char \<Rightarrow> bool" where
  "js_space c \<longleftrightarrow> c \<in> set [CHR 0x09, CHR 0x0A, CHR 0x0B, CHR 0x0C, CHR 0x0D, CHR 0x20, CHR 0xA0]"

definition js_trim :: "string \<Rightarrow> string" where
  "js_trim s = rev (dropWhile js_space (rev (dropWhile js_space s)))"

definition digit_of :: "nat \<Rightarrow> char \<Rightarrow> nat option" where
  "digit_of b c =
     (case map_of (zip ''0123456789abcdefABCDEF'' ([0..<16] @ [10..<16])) c of
        Some v \<Rightarrow> if v < b then Some v else None
      | None \<Rightarrow> None)"

fun radix_value :: "nat \<Rightarrow> nat \<Rightarrow> string \<Rightarrow> nat option" where
  "radix_value b acc [] = Some acc"
| "radix_value b acc (c # cs) =
     (case digit_of b c of None \<Rightarrow> None | Some v \<Rightarrow> radix_value b (b * acc + v) cs)"

definition radix_literal :: "nat \<Rightarrow> string \<Rightarrow> nat option" where
  "radix_literal b s = (if s = [] then None else radix_value b 0 s)"

definition is_digit :: "char \<Rightarrow> bool" where
  "is_digit c \<longleftrightarrow> digit_of 10 c \<noteq> None"

definition dec_value :: "string \<Rightarrow> nat" where
  "dec_value s = (case radix_value 10 0 s of Some v \<Rightarrow> v | None \<Rightarrow> 0)"

text \<open>What follows the mantissa: nothing, or \<open>e\<close> and a signed integer.\<close>

definition js_exponent :: "string \<Rightarrow> int option" where
  "js_exponent r =
     (case r of
        [] \<Rightarrow> Some 0
      | c # r1 \<Rightarrow>
          if c = CHR ''e'' \<or> c = CHR ''E'' then
            (case r1 of
               [] \<Rightarrow> None
             | d # r2 \<Rightarrow>
                 if d = CHR ''+'' then map_option int (radix_literal 10 r2)
                 else if d = CHR ''-'' then map_option (\<lambda>n. - int n) (radix_literal 10 r2)
                 else map_option int (radix_literal 10 r1))
          else None)"

definition js_unsigned_decimal :: "string \<Rightarrow> real option" where
  "js_unsigned_decimal s =
     (let ip = takeWhile is_digit s; r1 = dropWhile is_digit s;
          dotted = (r1 \<noteq> [] \<and> hd r1 = CHR ''.'');
          fp = (if dotted then takeWhile is_digit (tl r1) else []);
          r2 = (if dotted then dropWhile is_digit (tl r1) else r1)
      in if ip = [] \<and> fp = [] then None
         else case js_exponent r2 of
                None \<Rightarrow> None
              | Some ex \<Rightarrow>
                  Some ((real (dec_value ip) + real (dec_value fp) / 10 ^ length fp)
                        * (if ex \<ge> 0 then 10 ^ nat ex else 1 / 10 ^ nat (- ex))))"

definition js_signed_decimal :: "string \<Rightarrow> real option" where
  "js_signed_decimal s =
     (case s of
        [] \<Rightarrow> None
      | c # r \<Rightarrow>
          if c = CHR ''+'' then js_unsigned_decimal r
          else if c = CHR ''-'' then map_option uminus (js_unsigned_decimal r)
          else js_unsigned_decimal s)"

definition js_prefixed :: "string \<Rightarrow> nat option" where
  "js_prefixed s =
     (if length s < 2 \<or> hd s \<noteq> CHR ''0'' then None
      else if hd (tl s) \<in> set ''xX'' then Some 16
      else if hd (tl s) \<in> set ''oO'' then Some 8
      else if hd (tl s) \<in> set ''bB'' then Some 2
      else None)"

definition js_Number :: "string option \<Rightarrow> real option" where
  "js_Number v =
     (case v of
        None \<Rightarrow> None
      | Some s0 \<Rightarrow>
          (let s = js_trim s0;
               r = (if s = [] then Some 0
                    else case js_prefixed s of
                           Some b \<Rightarrow> map_option real (radix_literal b (tl (tl s)))
                         | None \<Rightarrow> js_signed_decimal s)
           in case r of
                Some x \<Rightarrow> if \<bar>x\<bar> < 2 ^ 1024 then Some x else None
              | None \<Rightarrow> None))"

section \<open>Data model\<close>

text \<open>
  A tile key is the string \<open>t:scheme:z-x-y\<close> that \<open>_tileKey\<close> renders. The model
  keeps the four components, of which the string is an injective function, and renders
  the string where the code takes it apart. Zoom and tile coordinates are integers.
\<close>

datatype tilekey = TileKey string int int int

definition tileKey :: "string \<Rightarrow> int \<Rightarrow> int \<Rightarrow> int \<Rightarrow> tilekey" where
  "tileKey scheme z x y = TileKey scheme z x y"

fun key_string :: "tilekey \<Rightarrow> string" where
  "key_string (TileKey s z x y) =
     ''t:'' @ s @ '':'' @ render_int z @ ''-'' @ render_int x @ ''-'' @ render_int y"

text \<open>A texture with the pixel size of its image (\<open>None\<close>: not a number).\<close>

record texture =
  texId :: nat
  imgWidth :: "int option"
  imgHeight :: "int option"

record material =
  matMap :: "texture option"
  opacity :: int
  transparent :: bool
  needsUpdate :: bool

record atlas_grid =
  originX :: int
  originY :: int
  gridSize :: int

record candidate =
  ckey :: tilekey
  tileX :: int
  tileY :: int
  rectDist :: real

text \<open>One zoom level's atlas: the object \<open>_ensureZoomState\<close> builds.\<close>

record zstate =
  zoom :: int
  grid :: atlas_grid
  cellSize :: int
  rt :: nat
  useMipmaps :: bool
  meshes :: "material list"
  loads :: "(tilekey \<times> nat) list"
  activeKeys :: "tilekey list"
  dirty :: bool
  textures :: "(tilekey \<times> texture) list"

record view =
  vx :: real
  vy :: real
  vz :: real
  qx :: real
  qy :: real
  qz :: real
  qw :: real

text \<open>The object in \<open>this._state\<close>.\<close>

record atlas =
  byZoom :: "(int \<times> zstate) list"
  lastUpdate :: real
  pendingCellSizeByZoom :: "(int \<times> int) list"
  lastView :: "view option"
  lastMoveAt :: "real option"

text \<open>An issued \<open>getTileTexture\<close> promise with what its handlers close over.\<close>

record fetch =
  fid :: nat
  fAtlas :: nat
  fZoom :: int
  fCand :: candidate

datatype gpu_event = RtCreate nat int | RtDispose nat | RtRender nat

record world =
  heap :: "nat \<Rightarrow> atlas"
  this_state :: nat
  pins :: "tilekey \<Rightarrow> int"
  inflight :: "fetch list"
  nextFetch :: nat
  gpu :: "gpu_event list"
  nextRt :: nat

text \<open>\<open>this._opts\<close> and the parts of the live configuration the compositor reads.\<close>

record opts =
  mapDrapeAtlasMipmaps :: bool
  mapDrapeAtlasMaxNewLoadsPerTick :: int

record config =
  cellSizeByZoom :: "int \<Rightarrow> int option"
  cellSizeAll :: "int option"
  tileSizeCfg :: "int option"
  skipTileLoad :: bool
  tileScheme :: string

definition empty_atlas :: atlas where
  "empty_atlas = \<lparr>byZoom = [], lastUpdate = 0, pendingCellSizeByZoom = [],
     lastView = None, lastMoveAt = None\<rparr>"

definition init_world :: world where
  "init_world = \<lparr>heap = (\<lambda>a. empty_atlas), this_state = 0, pins = (\<lambda>k. 0),
     inflight = [], nextFetch = 0, gpu = [], nextRt = 0\<rparr>"

definition cur :: "world \<Rightarrow> atlas" where
  "cur w = heap w (this_state w)"

definition set_atlas :: "nat \<Rightarrow> atlas \<Rightarrow> world \<Rightarrow> world" where
  "set_atlas a v w = w\<lparr>heap := (heap w)(a := v)\<rparr>"

definition put_zstate :: "nat \<Rightarrow> int \<Rightarrow> zstate \<Rightarrow> world \<Rightarrow> world" where
  "put_zstate a z st w =
     set_atlas a ((heap w a)\<lparr>byZoom := AList.update z st (byZoom (heap w a))\<rparr>) w"

section \<open>\<open>_ensureZoomState\<close>\<close>

definition tileSizeOr256 :: "config \<Rightarrow> int" where
  "tileSizeOr256 cfg = (case tileSizeCfg cfg of None \<Rightarrow> 256 | Some t \<Rightarrow> t)"

definition blank_material :: material where
  "blank_material = \<lparr>matMap = None, opacity = 0, transparent = True, needsUpdate = False\<rparr>"

text \<open>
  \<open>cellSizePx\<close> is \<open>None\<close> when it is not a finite number. The state is rebuilt when
  there is none, when the grid differs or when the cell size differs (a stored cell size
  of \<open>0\<close> is falsy and counts as differing); the rebuilt state takes the old maps.
\<close>

definition ensureZoomState ::
  "opts \<Rightarrow> config \<Rightarrow> int \<Rightarrow> atlas_grid \<Rightarrow> int option \<Rightarrow> world \<Rightarrow> world \<times> zstate" where
  "ensureZoomState ops cfg z g cellSizePx w =
    (let cell = (case cellSizePx of
                   Some c \<Rightarrow> max 1 (toInt32 c)
                 | None \<Rightarrow> toInt32 (tileSizeOr256 cfg));
         old = map_of (byZoom (cur w)) z;
         gridChanged = (case old of
                          None \<Rightarrow> True
                        | Some s \<Rightarrow> originX (grid s) \<noteq> originX g
                                  \<or> originY (grid s) \<noteq> originY g
                                  \<or> gridSize (grid s) \<noteq> gridSize g);
         cellChanged = (case old of
                          None \<Rightarrow> True
                        | Some s \<Rightarrow> cellSize s = 0 \<or> cellSize s \<noteq> cell)
     in case old of
          Some s \<Rightarrow>
            if gridChanged \<or> cellChanged then
              (let sizePx = max 1 (gridSize g) * cell;
                   st = \<lparr>zoom = z, grid = g, cellSize = cell, rt = nextRt w,
                         useMipmaps = mapDrapeAtlasMipmaps ops,
                         meshes = replicate (nat (gridSize g) * nat (gridSize g)) blank_material,
                         loads = loads s, activeKeys = activeKeys s, dirty = True,
                         textures = textures s\<rparr>
               in (put_zstate (this_state w) z st
                     (w\<lparr>gpu := gpu w @ [RtDispose (rt s), RtCreate (nextRt w) sizePx],
                        nextRt := Suc (nextRt w)\<rparr>), st))
            else (w, s)
        | None \<Rightarrow>
            (let sizePx = max 1 (gridSize g) * cell;
                 st = \<lparr>zoom = z, grid = g, cellSize = cell, rt = nextRt w,
                       useMipmaps = mapDrapeAtlasMipmaps ops,
                       meshes = replicate (nat (gridSize g) * nat (gridSize g)) blank_material,
                       loads = [], activeKeys = [], dirty = True, textures = []\<rparr>
             in (put_zstate (this_state w) z st
                   (w\<lparr>gpu := gpu w @ [RtCreate (nextRt w) sizePx],
                      nextRt := Suc (nextRt w)\<rparr>), st)))"

section \<open>Disposal of a zoom state and \<open>clear\<close>\<close>

definition unpin_keys :: "bool \<Rightarrow> tilekey list \<Rightarrow> (tilekey \<Rightarrow> int) \<Rightarrow> (tilekey \<Rightarrow> int)" where
  "unpin_keys tiles ks p = fold (\<lambda>k q. if tiles then q(k := q k - 1) else q) ks p"

text \<open>
  The block the source repeats wherever a zoom level is given up: unpin every active
  key (when there is a tile source), delete the state from the map, dispose its render
  target.
\<close>

definition drop_zoom :: "bool \<Rightarrow> int \<Rightarrow> world \<Rightarrow> world" where
  "drop_zoom tiles z w =
     (case map_of (byZoom (cur w)) z of
        None \<Rightarrow> w
      | Some st \<Rightarrow>
          set_atlas (this_state w)
            ((cur w)\<lparr>byZoom := AList.delete z (byZoom (cur w))\<rparr>)
            (w\<lparr>pins := unpin_keys tiles (activeKeys st) (pins w),
               gpu := gpu w @ [RtDispose (rt st)]\<rparr>))"

text \<open>
  \<open>clear\<close> unpins and disposes every state of the current atlas object, then puts a
  new, empty atlas object into \<open>this._state\<close>. The old object stays as it was: handlers
  of fetches issued earlier still hold it.
\<close>

definition clear :: "bool \<Rightarrow> world \<Rightarrow> world" where
  "clear tiles w =
     (let w1 = fold (\<lambda>(z, st) v. v\<lparr>pins := unpin_keys tiles (activeKeys st) (pins v),
                                     gpu := gpu v @ [RtDispose (rt st)]\<rparr>)
                    (byZoom (cur w)) w;
          a = Suc (this_state w1)
      in set_atlas a empty_atlas (w1\<lparr>this_state := a\<rparr>))"

section \<open>Cell size and grid selection\<close>

definition getCellSizeOverride :: "config \<Rightarrow> int \<Rightarrow> int option" where
  "getCellSizeOverride cfg z =
     (case cellSizeByZoom cfg z of Some v \<Rightarrow> Some v | None \<Rightarrow> cellSizeAll cfg)"

definition hasCellSizeOverride :: "config \<Rightarrow> int \<Rightarrow> bool" where
  "hasCellSizeOverride cfg z \<longleftrightarrow> getCellSizeOverride cfg z \<noteq> None"

definition resolveCellSize :: "config \<Rightarrow> int \<Rightarrow> int option \<Rightarrow> int" where
  "resolveCellSize cfg z fallback =
     (case getCellSizeOverride cfg z of
        Some ov \<Rightarrow> max 32 (min 2048 (toInt32 ov))
      | None \<Rightarrow>
          (let base = (case fallback of Some f \<Rightarrow> f | None \<Rightarrow> tileSizeOr256 cfg)
           in max 32 (min 2048 (toInt32 base))))"

text \<open>
  The fallback both paths pass: the pending cell size of the zoom, else the cell size of
  its state, else the tile size.
\<close>

definition cellSizeFallback :: "config \<Rightarrow> atlas \<Rightarrow> int \<Rightarrow> int option" where
  "cellSizeFallback cfg a z =
     js_or (map_of (pendingCellSizeByZoom a) z)
       (js_or (map_option cellSize (map_of (byZoom a) z)) (Some (tileSizeOr256 cfg)))"

text \<open>\<open>1 << z\<close>: the shift count is taken modulo 32, the result is a 32-bit integer.\<close>

definition shl1 :: "int \<Rightarrow> int" where
  "shl1 z = toInt32 (2 ^ nat (z mod 32))"

text \<open>
  Modelled from the spec: \<open>nextPow2\<close> of \<open>math/math.js\<close>, which is not among the
  sources. The spec calls its result the smallest power of two covering the extent
  (\<open>next power-of-two of max(4,3)\<close> is \<open>4\<close>).
\<close>

function pow2_from :: "int \<Rightarrow> int \<Rightarrow> int" where
  "pow2_from p v = (if 0 < p \<and> p < v then pow2_from (2 * p) v else p)"
  by pat_completeness auto
termination
  by (relation "measure (\<lambda>(p, v). nat (v - p))") auto

definition nextPow2 :: "int \<Rightarrow> int" where
  "nextPow2 v = pow2_from 1 v"

text \<open>The bounding tile extent \<open>(minTX, minTY, maxTX, maxTY)\<close>; \<open>None\<close> for no candidates.\<close>

fun tile_bounds :: "candidate list \<Rightarrow> (int \<times> int \<times> int \<times> int) option" where
  "tile_bounds [] = None"
| "tile_bounds (c # cs) =
     Some (fold (\<lambda>d (x0, y0, x1, y1).
                   (if tileX d < x0 then tileX d else x0, if tileY d < y0 then tileY d else y0,
                    if tileX d > x1 then tileX d else x1, if tileY d > y1 then tileY d else y1))
             cs (tileX c, tileY c, tileX c, tileY c))"

definition clampOrigin :: "int \<Rightarrow> int \<Rightarrow> int \<Rightarrow> int" where
  "clampOrigin n gs v = max 0 (min (n - gs) v)"

text \<open>One axis of the origin: centred on the camera tile, then moved to cover the extent.\<close>

definition pick_origin :: "int \<Rightarrow> int \<Rightarrow> int \<Rightarrow> int \<Rightarrow> int \<Rightarrow> int" where
  "pick_origin n gs c lo hi =
     (let o0 = clampOrigin n gs (c - gs div 2);
          o1 = (if o0 > lo then clampOrigin n gs lo else o0);
          o2 = (if o1 + gs - 1 < hi then clampOrigin n gs (hi - gs + 1) else o1)
      in o2)"

text \<open>Trapezoid path: the grid size is the extent, rounded up for mipmaps; no cap.\<close>

definition trap_gridSize :: "bool \<Rightarrow> int \<times> int \<times> int \<times> int \<Rightarrow> int" where
  "trap_gridSize wantsMipmaps b =
     (case b of (minTX, minTY, maxTX, maxTY) \<Rightarrow>
        (let w = maxTX - minTX + 1; h = maxTY - minTY + 1
         in if wantsMipmaps then nextPow2 (max w h) else max w h))"

text \<open>Viewport and bands path: the same size, then capped at \<open>maxGridSize\<close>.\<close>

definition view_gridSize :: "bool \<Rightarrow> int \<Rightarrow> int \<times> int \<times> int \<times> int \<Rightarrow> int" where
  "view_gridSize wantsMipmaps maxGridSize b =
     (let gs = trap_gridSize wantsMipmaps b
      in if gs > maxGridSize then maxGridSize else gs)"

definition make_grid :: "int \<Rightarrow> int \<Rightarrow> int \<times> int \<Rightarrow> int \<times> int \<times> int \<times> int \<Rightarrow> atlas_grid" where
  "make_grid n gs center b =
     (case b of (minTX, minTY, maxTX, maxTY) \<Rightarrow>
        \<lparr>originX = pick_origin n gs (fst center) minTX maxTX,
         originY = pick_origin n gs (snd center) minTY maxTY,
         gridSize = gs\<rparr>)"

text \<open>
  \<open>maxGridForCell\<close> of the viewport and bands path. Its loop doubles a 32-bit integer
  and does not end once \<open>raw\<close> reaches \<open>2^30\<close>; the result is \<open>None\<close> then.
\<close>

definition maxRTSize :: "int option \<Rightarrow> int option \<Rightarrow> int" where
  "maxRTSize maxRT maxTex =
     (let m0 = (case maxRT of Some r \<Rightarrow> if r > 0 then Some r else None | None \<Rightarrow> None);
          m1 = (case maxTex of
                  Some t \<Rightarrow> if t > 0 then (case m0 of Some r \<Rightarrow> Some (min r t) | None \<Rightarrow> Some t)
                            else m0
                | None \<Rightarrow> m0)
      in case m1 of Some m \<Rightarrow> if m \<le> 0 then 4096 else m | None \<Rightarrow> 4096)"

partial_function (option) floorPow2_loop :: "int \<Rightarrow> int \<Rightarrow> int option" where
  "floorPow2_loop p raw =
     (if toInt32 (2 * p) \<le> raw then floorPow2_loop (toInt32 (2 * p)) raw else Some p)"

declare floorPow2_loop.simps [code]

definition maxGridForCell :: "bool \<Rightarrow> int \<Rightarrow> int \<Rightarrow> int option" where
  "maxGridForCell wantsMipmaps maxRTSz cellSizePx =
     (let cell = max 1 (toInt32 cellSizePx);
          raw = max 1 (maxRTSz div cell)
      in if \<not> wantsMipmaps then Some raw
         else map_option (max 1) (floorPow2_loop 1 raw))"

section \<open>The atlas compositor\<close>

text \<open>A \<open>Set\<close> built from an array: first occurrences, in order.\<close>

definition js_set_add :: "'a list \<Rightarrow> 'a \<Rightarrow> 'a list" where
  "js_set_add s k = (if k \<in> set s then s else s @ [k])"

definition js_set :: "'a list \<Rightarrow> 'a list" where
  "js_set xs = foldl js_set_add [] xs"

text \<open>
  The two loops that reconcile pins: unpin the active keys that are no longer desired,
  pin the desired keys that were not active.
\<close>

definition reconcile_pins ::
  "bool \<Rightarrow> tilekey list \<Rightarrow> tilekey list \<Rightarrow> (tilekey \<Rightarrow> int) \<Rightarrow> (tilekey \<Rightarrow> int)" where
  "reconcile_pins tiles active desired p =
     fold (\<lambda>k q. if tiles \<and> k \<notin> set active then q(k := q k + 1) else q) desired
       (fold (\<lambda>k q. if tiles \<and> k \<notin> set desired then q(k := q k - 1) else q) active p)"

definition cell_index :: "atlas_grid \<Rightarrow> int \<Rightarrow> int \<Rightarrow> nat option" where
  "cell_index g tx ty =
     (let ix = tx - originX g; iy = ty - originY g
      in if ix < 0 \<or> iy < 0 \<or> ix \<ge> gridSize g \<or> iy \<ge> gridSize g then None
         else Some (nat (iy * gridSize g + ix)))"

text \<open>Clearing a cell to transparent, and binding a texture to a cell.\<close>

definition clear_cell :: "nat \<Rightarrow> zstate \<Rightarrow> zstate" where
  "clear_cell idx st =
     (if idx < length (meshes st) then
        (let m = meshes st ! idx
         in if matMap m \<noteq> None \<or> opacity m \<noteq> 0 \<or> \<not> transparent m then
              st\<lparr>meshes := (meshes st)[idx := \<lparr>matMap = None, opacity = 0,
                                               transparent = True, needsUpdate = True\<rparr>],
                 dirty := True\<rparr>
            else st)
      else st)"

definition bind_cell :: "nat \<Rightarrow> texture \<Rightarrow> zstate \<Rightarrow> zstate" where
  "bind_cell idx tex st =
     (let m = meshes st ! idx
      in if matMap m \<noteq> Some tex \<or> opacity m \<noteq> 1 \<or> transparent m then
           st\<lparr>meshes := (meshes st)[idx := \<lparr>matMap = Some tex, opacity = 1,
                                            transparent = False, needsUpdate = True\<rparr>],
              dirty := True\<rparr>
         else st)"

text \<open>
  One round of the loop over \<open>st.textures.keys()\<close>. The tile coordinates are read
  back from the key: \<open>String(key).split('-')\<close>, then \<open>Number\<close> of the parts 1 and 2.
  The cell is skipped when either is not a finite number, when the cell lies outside
  the grid, and when \<open>st.meshes[idx]\<close> has no material, which is the case for an index
  that is not an integer or lies past the end of the array.
\<close>

definition drop_texture :: "tilekey list \<Rightarrow> tilekey \<Rightarrow> zstate \<Rightarrow> zstate" where
  "drop_texture desired k st =
     (if k \<in> set desired then st
      else (let st1 = st\<lparr>textures := AList.delete k (textures st)\<rparr>;
                parts = js_split CHR ''-'' (key_string k)
            in case js_Number (js_nth parts 1) of
                 None \<Rightarrow> st1
               | Some tx \<Rightarrow>
                   (case js_Number (js_nth parts 2) of
                      None \<Rightarrow> st1
                    | Some ty \<Rightarrow>
                        (let ix = tx - real_of_int (originX (grid st1));
                             iy = ty - real_of_int (originY (grid st1));
                             gs = real_of_int (gridSize (grid st1));
                             idx = iy * gs + ix
                         in if ix < 0 \<or> iy < 0 \<or> ix \<ge> gs \<or> iy \<ge> gs then st1
                            else if real_of_int \<lfloor>idx\<rfloor> = idx
                            then clear_cell (nat \<lfloor>idx\<rfloor>) st1
                            else st1))))"

definition drop_textures :: "tilekey list \<Rightarrow> zstate \<Rightarrow> zstate" where
  "drop_textures desired st = fold (drop_texture desired) (map fst (textures st)) st"

text \<open>
  The state of a fetch-issuing loop: the zoom state, the counter \<open>issued\<close>, the fetches
  issued so far and the next promise identifier.
\<close>

record issue_acc =
  ist :: zstate
  issued :: int
  newFetches :: "fetch list"
  nextId :: nat

text \<open>
  Issuing a fetch: count it, and when there is a tile source call \<open>getTileTexture\<close> and
  record the promise under the key in \<open>st.loads\<close>.
\<close>

definition issue_fetch :: "bool \<Rightarrow> nat \<Rightarrow> int \<Rightarrow> candidate \<Rightarrow> issue_acc \<Rightarrow> issue_acc" where
  "issue_fetch tiles addr z c acc =
     (if tiles then
        acc\<lparr>ist := (ist acc)\<lparr>loads := AList.update (ckey c) (nextId acc) (loads (ist acc))\<rparr>,
            issued := issued acc + 1,
            newFetches := newFetches acc @ [\<lparr>fid = nextId acc, fAtlas = addr, fZoom = z, fCand = c\<rparr>],
            nextId := Suc (nextId acc)\<rparr>
      else acc\<lparr>issued := issued acc + 1\<rparr>)"

text \<open>The body of the trapezoid path's loop over the candidates.\<close>

definition issue_trap_one ::
  "bool \<Rightarrow> int \<Rightarrow> nat \<Rightarrow> int \<Rightarrow> tilekey list \<Rightarrow> candidate \<Rightarrow> issue_acc \<Rightarrow> issue_acc" where
  "issue_trap_one tiles maxNew addr z desired c acc =
     (let st = ist acc
      in if ckey c \<notin> set desired then acc
         else if map_of (loads st) (ckey c) \<noteq> None then acc
         else case cell_index (grid st) (tileX c) (tileY c) of
                None \<Rightarrow> acc
              | Some idx \<Rightarrow>
                  if \<not> idx < length (meshes st) then acc
                  else case map_of (textures st) (ckey c) of
                         Some existing \<Rightarrow> acc\<lparr>ist := bind_cell idx existing st\<rparr>
                       | None \<Rightarrow>
                           if issued acc \<ge> maxNew then acc
                           else issue_fetch tiles addr z c acc)"

text \<open>
  The viewport and bands path walks \<open>cellInfos\<close>, whose index was computed against
  the grid just chosen; it looks at the texture before the loads map.
\<close>

definition issue_view_one ::
  "bool \<Rightarrow> int \<Rightarrow> nat \<Rightarrow> int \<Rightarrow> nat \<times> candidate \<Rightarrow> issue_acc \<Rightarrow> issue_acc" where
  "issue_view_one tiles maxNew addr z ic acc =
     (let st = ist acc; idx = fst ic; c = snd ic
      in if \<not> idx < length (meshes st) then acc
         else case map_of (textures st) (ckey c) of
                Some existing \<Rightarrow> acc\<lparr>ist := bind_cell idx existing st\<rparr>
              | None \<Rightarrow>
                  if map_of (loads st) (ckey c) \<noteq> None then acc
                  else if issued acc \<ge> maxNew then acc
                  else issue_fetch tiles addr z c acc)"

definition maxNewLoadsPerTick :: "opts \<Rightarrow> int" where
  "maxNewLoadsPerTick ops = max 0 (toInt32 (mapDrapeAtlasMaxNewLoadsPerTick ops))"

text \<open>\<open>if (st.dirty) { this._renderZoom(st); st.dirty = false; }\<close>\<close>

definition render_if_dirty :: "zstate \<Rightarrow> world \<Rightarrow> zstate \<times> world" where
  "render_if_dirty st w =
     (if dirty st then (st\<lparr>dirty := False\<rparr>, w\<lparr>gpu := gpu w @ [RtRender (rt st)]\<rparr>)
      else (st, w))"

text \<open>
  What both paths do once a grid is chosen: make sure the state has that grid, settle a
  pending cell size, reconcile the pins, install the desired set.
\<close>

definition install_desired ::
  "bool \<Rightarrow> opts \<Rightarrow> config \<Rightarrow> int \<Rightarrow> atlas_grid \<Rightarrow> tilekey list \<Rightarrow> world \<Rightarrow> world \<times> zstate" where
  "install_desired tiles ops cfg z g desired w =
     (let desiredCellSize = resolveCellSize cfg z (cellSizeFallback cfg (cur w) z);
          (w1, st) = ensureZoomState ops cfg z g (Some desiredCellSize) w;
          a1 = cur w1;
          w2 = (if map_of (pendingCellSizeByZoom a1) z \<noteq> None \<and> cellSize st = desiredCellSize
                then set_atlas (this_state w1)
                       (a1\<lparr>pendingCellSizeByZoom := AList.delete z (pendingCellSizeByZoom a1)\<rparr>) w1
                else w1);
          w3 = w2\<lparr>pins := reconcile_pins tiles (activeKeys st) desired (pins w2)\<rparr>
      in (w3, st\<lparr>activeKeys := desired\<rparr>))"

text \<open>
  The rest of a zoom's round: unless tile loading is skipped, drop the textures that are
  no longer desired, run the fetch-issuing loop, render when dirty.
\<close>

definition finish_zoom ::
  "config \<Rightarrow> int \<Rightarrow> tilekey list \<Rightarrow> (issue_acc \<Rightarrow> issue_acc) \<Rightarrow> zstate \<Rightarrow> world \<Rightarrow> world" where
  "finish_zoom cfg z desired issue_loop st w =
     (if skipTileLoad cfg then put_zstate (this_state w) z st w
      else (let st2 = drop_textures desired st;
                acc = issue_loop \<lparr>ist = st2, issued = 0, newFetches = [], nextId = nextFetch w\<rparr>;
                (st3, w1) = render_if_dirty (ist acc)
                              (w\<lparr>inflight := inflight w @ newFetches acc, nextFetch := nextId acc\<rparr>)
            in put_zstate (this_state w1) z st3 w1))"

text \<open>
  One round of the trapezoid path's loop over the zoom levels, for the candidates the
  selector found at \<open>z\<close> and the camera's tile at \<open>z\<close> (\<open>None\<close>: no projection).
\<close>

definition trap_zoom_step ::
  "bool \<Rightarrow> opts \<Rightarrow> config \<Rightarrow> int \<Rightarrow> (int \<times> int) option \<Rightarrow> candidate list \<Rightarrow> world \<Rightarrow> world" where
  "trap_zoom_step tiles ops cfg z center cands w =
     (case tile_bounds cands of
        None \<Rightarrow> drop_zoom tiles z w
      | Some b \<Rightarrow>
          (case center of
             None \<Rightarrow> w
           | Some c \<Rightarrow>
               (let sorted = sort_key rectDist cands;
                    gs = trap_gridSize (mapDrapeAtlasMipmaps ops) b;
                    g = make_grid (shl1 z) gs c b;
                    desired = js_set (map ckey sorted);
                    (w1, st) = install_desired tiles ops cfg z g desired w
                in finish_zoom cfg z desired
                     (fold (issue_trap_one tiles (maxNewLoadsPerTick ops) (this_state w1) z desired) sorted)
                     st w1)))"

text \<open>
  One round of the viewport and bands path's loop, from the candidate list on. The
  round is only reached with a camera tile; \<open>maxGridSize\<close> is the cap for the zoom.
\<close>

definition cellInfos :: "atlas_grid \<Rightarrow> candidate list \<Rightarrow> (nat \<times> candidate) list" where
  "cellInfos g cs =
     concat (map (\<lambda>c. case cell_index g (tileX c) (tileY c) of
                         None \<Rightarrow> [] | Some idx \<Rightarrow> [(idx, c)]) cs)"

definition view_zoom_step ::
  "bool \<Rightarrow> opts \<Rightarrow> config \<Rightarrow> int \<Rightarrow> int \<Rightarrow> int \<times> int \<Rightarrow> candidate list \<Rightarrow> world \<Rightarrow> world" where
  "view_zoom_step tiles ops cfg z maxGridSize c cands w =
     (case tile_bounds cands of
        None \<Rightarrow> drop_zoom tiles z w
      | Some b \<Rightarrow>
          (let sorted = sort_key rectDist cands;
               gs = view_gridSize (mapDrapeAtlasMipmaps ops) maxGridSize b;
               g = make_grid (shl1 z) gs c b;
               infos = cellInfos g sorted;
               desired = js_set (map (ckey \<circ> snd) infos);
               (w1, st) = install_desired tiles ops cfg z g desired w
           in finish_zoom cfg z desired
                (fold (issue_view_one tiles (maxNewLoadsPerTick ops) (this_state w1) z)
                   (sort_key (rectDist \<circ> snd) infos))
                st w1))"

section \<open>A frame of the compositor\<close>

text \<open>\<open>tilesByZoom.get(z) || []\<close>\<close>

definition tiles_at :: "(int \<times> candidate list) list \<Rightarrow> int \<Rightarrow> candidate list" where
  "tiles_at tbz z = (case map_of tbz z of None \<Rightarrow> [] | Some cs \<Rightarrow> cs)"

text \<open>
  What the selector hands to the compositor in the trapezoid path: whether there is a
  tile source, the zoom range, the candidates per zoom and the camera's tile per zoom.
\<close>

record trap_frame =
  tf_tiles :: bool
  tf_topZoom :: int
  tf_minZoom :: int
  tf_tilesByZoom :: "(int \<times> candidate list) list"
  tf_center :: "int \<Rightarrow> (int \<times> int) option"

text \<open>\<open>for (let z = topZoom; z >= minZoom; z--)\<close>\<close>

definition zoom_levels :: "int \<Rightarrow> int \<Rightarrow> int list" where
  "zoom_levels hi lo = rev [lo..hi]"

definition trap_composite :: "opts \<Rightarrow> config \<Rightarrow> trap_frame \<Rightarrow> world \<Rightarrow> world" where
  "trap_composite ops cfg fr w =
     (let levels = zoom_levels (tf_topZoom fr) (tf_minZoom fr);
          w1 = fold (\<lambda>z v. if z \<in> set levels then v else drop_zoom (tf_tiles fr) z v)
                 (map fst (byZoom (cur w))) w
      in fold (\<lambda>z v. trap_zoom_step (tf_tiles fr) ops cfg z (tf_center fr z)
                        (tiles_at (tf_tilesByZoom fr) z) v)
           levels w1)"

text \<open>
  The viewport and bands path decides per zoom: no range left (the state is dropped), no
  camera tile (the round is skipped), or a candidate list.
\<close>

datatype view_plan = RangeEmpty | NoCenter | Candidates "int \<times> int" "candidate list"

record view_frame =
  vf_tiles :: bool
  vf_maxRT :: "int option"
  vf_maxTex :: "int option"
  vf_minTileZoom :: int
  vf_maxTileZoom :: int
  vf_noCoverage :: "int \<Rightarrow> bool"
  vf_plan :: "int \<Rightarrow> view_plan"

text \<open>
  A round starts by computing the grid cap from the cell size it expects; the round
  does not return when that loop does not.
\<close>

definition view_zoom_round ::
  "opts \<Rightarrow> config \<Rightarrow> view_frame \<Rightarrow> int \<Rightarrow> world \<Rightarrow> world option" where
  "view_zoom_round ops cfg fr z w =
     (case maxGridForCell (mapDrapeAtlasMipmaps ops) (maxRTSize (vf_maxRT fr) (vf_maxTex fr))
             (resolveCellSize cfg z (cellSizeFallback cfg (cur w) z)) of
        None \<Rightarrow> None
      | Some maxGridSize \<Rightarrow>
          Some (case vf_plan fr z of
                  RangeEmpty \<Rightarrow> drop_zoom (vf_tiles fr) z w
                | NoCenter \<Rightarrow> w
                | Candidates c cands \<Rightarrow>
                    view_zoom_step (vf_tiles fr) ops cfg z maxGridSize c cands w))"

fun view_rounds :: "opts \<Rightarrow> config \<Rightarrow> view_frame \<Rightarrow> int list \<Rightarrow> world \<Rightarrow> world option" where
  "view_rounds ops cfg fr [] w = Some w"
| "view_rounds ops cfg fr (z # zs) w =
     (case view_zoom_round ops cfg fr z w of
        None \<Rightarrow> None
      | Some w1 \<Rightarrow> view_rounds ops cfg fr zs w1)"

definition view_composite :: "opts \<Rightarrow> config \<Rightarrow> view_frame \<Rightarrow> world \<Rightarrow> world option" where
  "view_composite ops cfg fr w =
     (let w1 = fold (\<lambda>z v. if z < vf_minTileZoom fr \<or> z > vf_maxTileZoom fr
                            then drop_zoom (vf_tiles fr) z v
                            else if vf_noCoverage fr z then drop_zoom (vf_tiles fr) z v
                            else v)
                 (map fst (byZoom (cur w))) w
      in view_rounds ops cfg fr (zoom_levels (vf_maxTileZoom fr) (vf_minTileZoom fr)) w1)"

section \<open>Completion of a tile fetch\<close>

definition getCellSizeFromTexture :: "texture \<Rightarrow> int option" where
  "getCellSizeFromTexture tex =
     (let byH = (case imgHeight tex of Some h \<Rightarrow> if h > 0 then Some h else None | None \<Rightarrow> None);
          s = (case imgWidth tex of Some w \<Rightarrow> if w > 0 then Some w else byH | None \<Rightarrow> byH)
      in map_option (\<lambda>v. max 64 (min 2048 (toInt32 v))) s)"

text \<open>
  The \<open>then\<close> handler. It first records the tile's pixel size as the pending cell size
  of its zoom; only then does it look the zoom's state up in the atlas object it closed
  over and test the key against the active set.
\<close>

definition note_cell_size :: "config \<Rightarrow> int \<Rightarrow> texture \<Rightarrow> atlas \<Rightarrow> atlas" where
  "note_cell_size cfg z tex a =
     (case getCellSizeFromTexture tex of
        None \<Rightarrow> a
      | Some actual \<Rightarrow>
          if \<not> hasCellSizeOverride cfg z \<and> actual \<noteq> 0
             \<and> map_of (pendingCellSizeByZoom a) z \<noteq> Some actual then
            (let currentCell = js_or (map_option cellSize (map_of (byZoom a) z))
                                 (Some (tileSizeOr256 cfg))
             in if Some actual \<noteq> currentCell
                then a\<lparr>pendingCellSizeByZoom := AList.update z actual (pendingCellSizeByZoom a)\<rparr>
                else a)
          else a)"

definition place_texture :: "candidate \<Rightarrow> texture \<Rightarrow> zstate \<Rightarrow> zstate" where
  "place_texture c tex stNow =
     (let st1 = stNow\<lparr>textures := AList.update (ckey c) tex (textures stNow)\<rparr>
      in case cell_index (grid st1) (tileX c) (tileY c) of
           None \<Rightarrow> st1
         | Some idx \<Rightarrow>
             if idx < length (meshes st1) then
               st1\<lparr>meshes := (meshes st1)[idx := \<lparr>matMap = Some tex, opacity = 1,
                                                  transparent = False, needsUpdate = True\<rparr>],
                   dirty := True\<rparr>
             else st1)"

definition fetch_then :: "config \<Rightarrow> fetch \<Rightarrow> texture \<Rightarrow> world \<Rightarrow> world" where
  "fetch_then cfg f tex w =
     (let z = fZoom f; c = fCand f;
          a1 = note_cell_size cfg z tex (heap w (fAtlas f))
      in case map_of (byZoom a1) z of
           None \<Rightarrow> set_atlas (fAtlas f) a1 w
         | Some stNow \<Rightarrow>
             if ckey c \<notin> set (activeKeys stNow) then set_atlas (fAtlas f) a1 w
             else set_atlas (fAtlas f)
                    (a1\<lparr>byZoom := AList.update z (place_texture c tex stNow) (byZoom a1)\<rparr>) w)"

text \<open>The \<open>finally\<close> handler: \<open>atlas.byZoom.get(z)?.loads?.delete?.(c.key)\<close>.\<close>

definition fetch_finally :: "fetch \<Rightarrow> world \<Rightarrow> world" where
  "fetch_finally f w =
     (let a = heap w (fAtlas f)
      in case map_of (byZoom a) (fZoom f) of
           None \<Rightarrow> w
         | Some st \<Rightarrow>
             set_atlas (fAtlas f)
               (a\<lparr>byZoom := AList.update (fZoom f)
                              (st\<lparr>loads := AList.delete (ckey (fCand f)) (loads st)\<rparr>) (byZoom a)\<rparr>) w)"

datatype outcome = Resolved texture | Rejected

text \<open>
  A pending promise settles once: \<open>then\<close> runs on success, the empty \<open>catch\<close> swallows
  a failure, \<open>finally\<close> runs either way.
\<close>

definition settle :: "config \<Rightarrow> nat \<Rightarrow> outcome \<Rightarrow> world \<Rightarrow> world" where
  "settle cfg i out w =
     (case find (\<lambda>f. fid f = i) (inflight w) of
        None \<Rightarrow> w
      | Some f \<Rightarrow>
          (let w1 = w\<lparr>inflight := filter (\<lambda>g. fid g \<noteq> i) (inflight w)\<rparr>;
               w2 = (case out of Resolved tex \<Rightarrow> fetch_then cfg f tex w1 | Rejected \<Rightarrow> w1)
           in fetch_finally f w2))"

section \<open>The gates at the head of \<open>update\<close>\<close>

text \<open>
  What a frame reads before any level-of-detail work. \<open>g_camMerc\<close> is \<open>None\<close> when
  there is no projection object, no \<open>threeToMercator\<close>, a null result or a non-finite
  coordinate: the two tests the code makes of it are the same. The ground height comes
  from \<open>getElevationAtMercator\<close> when the mercator position is usable and from
  \<open>sampleHeightAtWorld\<close> otherwise; \<open>None\<close> is a missing or non-finite height.
\<close>

record gate_in =
  g_enabled :: bool
  g_tiles :: bool
  g_camera :: "view option"
  g_camMerc :: "(real \<times> real) option"
  g_elevAtMercator :: "real option"
  g_heightAtWorld :: "real option"
  g_toMeters :: "real \<Rightarrow> real"
  g_enableBelowOrEqualHeight :: "real option"
  g_now :: real
  g_lodDebounceMs :: "real option"
  g_cfgDebounceMs :: "real option"
  g_lodMoveMeters :: "real option"
  g_cfgMoveMeters :: "real option"
  g_lodHeightMeters :: "real option"
  g_cfgHeightMeters :: "real option"
  g_lodAngleDeg :: "real option"
  g_cfgAngleDeg :: "real option"
  g_lodUpdateMs :: "real option"
  g_cfgUpdateMs :: "real option"

datatype js_error = TypeError

datatype gate_result = Returned | Proceed

text \<open>A threshold: the level-of-detail block's value, else the flat one, else the default.\<close>

definition threshold :: "real option \<Rightarrow> real option \<Rightarrow> real \<Rightarrow> real" where
  "threshold a b d =
     (case a of Some v \<Rightarrow> max 0 v | None \<Rightarrow> (case b of Some v \<Rightarrow> max 0 v | None \<Rightarrow> d))"

definition updateMs :: "gate_in \<Rightarrow> real" where
  "updateMs i =
     (case g_lodUpdateMs i of Some v \<Rightarrow> v
      | None \<Rightarrow> (case g_cfgUpdateMs i of Some v \<Rightarrow> v | None \<Rightarrow> 250))"

text \<open>The angle between two orientations, in degrees, as the gate computes it.\<close>

definition view_angle :: "view \<Rightarrow> view \<Rightarrow> real" where
  "view_angle c l =
     (let d = qx c * qx l + qy c * qy l + qz c * qz l + qw c * qw l;
          clampedDot = max (- 1) (min 1 \<bar>d\<bar>)
      in 2 * arccos clampedDot * (180 / pi))"

definition view_moved :: "(real \<Rightarrow> real) \<Rightarrow> real \<Rightarrow> real \<Rightarrow> real \<Rightarrow> view \<Rightarrow> view \<Rightarrow> bool" where
  "view_moved toMeters moveMeters heightMeters angleDeg c l =
     (let dx = toMeters (vx c - vx l);
          dz = toMeters (vz c - vz l);
          dy = toMeters (vy c - vy l);
          planar = sqrt (dx * dx + dz * dz);
          h = \<bar>dy\<bar>
      in planar > moveMeters \<or> h > heightMeters \<or> view_angle c l > angleDeg)"

text \<open>
  The debounce gate. A move beyond a threshold stamps \<open>lastMoveAt\<close> with the current
  time; the frame returns while the last such stamp is younger than \<open>debounceMs\<close>.
  The result is the atlas and whether the frame returns here.
\<close>

definition debounce_gate :: "gate_in \<Rightarrow> view \<Rightarrow> atlas \<Rightarrow> atlas \<times> bool" where
  "debounce_gate i c a =
     (let debounceMs = threshold (g_lodDebounceMs i) (g_cfgDebounceMs i) 150
      in if debounceMs > 0 then
           (let moveMeters = threshold (g_lodMoveMeters i) (g_cfgMoveMeters i) 15;
                heightMeters = threshold (g_lodHeightMeters i) (g_cfgHeightMeters i) 20;
                angleDeg = threshold (g_lodAngleDeg i) (g_cfgAngleDeg i) (3 / 2);
                a1 = a\<lparr>lastView := Some c\<rparr>;
                a2 = (case lastView a of
                        None \<Rightarrow> a1
                      | Some l \<Rightarrow>
                          if view_moved (g_toMeters i) moveMeters heightMeters angleDeg c l
                          then a1\<lparr>lastMoveAt := Some (g_now i)\<rparr> else a1)
            in (a2, case lastMoveAt a2 of
                      Some t \<Rightarrow> g_now i - t < debounceMs
                    | None \<Rightarrow> False))
         else (a, False))"

definition clear_if_any :: "bool \<Rightarrow> world \<Rightarrow> world" where
  "clear_if_any tiles w = (if byZoom (cur w) \<noteq> [] then clear tiles w else w)"

text \<open>
  \<open>update\<close> up to the choice of the level-of-detail mode: the enable switch, the height
  switch, the debounce gate, the throttle, and the test of the mercator position. Reading
  the position of a missing camera throws.
\<close>

definition cameraHeight :: "gate_in \<Rightarrow> view \<Rightarrow> real" where
  "cameraHeight i c =
     (let ground = (if g_camMerc i \<noteq> None then g_elevAtMercator i else g_heightAtWorld i);
          cameraHeightUnits = vy c - (case ground of Some g \<Rightarrow> g | None \<Rightarrow> 0)
      in g_toMeters i cameraHeightUnits)"

text \<open>\<open>enableBelowOrEqualHeight !== null && cameraHeight > enableBelowOrEqualHeight\<close>\<close>

definition too_high :: "gate_in \<Rightarrow> view \<Rightarrow> bool" where
  "too_high i c =
     (case g_enableBelowOrEqualHeight i of Some t \<Rightarrow> cameraHeight i c > t | None \<Rightarrow> False)"

definition update_gates :: "gate_in \<Rightarrow> world \<Rightarrow> js_error + (world \<times> gate_result)" where
  "update_gates i w =
     (if \<not> g_enabled i then Inr (clear_if_any (g_tiles i) w, Returned)
      else case g_camera i of
             None \<Rightarrow> Inl TypeError
           | Some c \<Rightarrow>
               if too_high i c then Inr (clear_if_any (g_tiles i) w, Returned)
               else
                 (let (a1, held) = debounce_gate i c (cur w)
                  in if held then Inr (set_atlas (this_state w) a1 w, Returned)
                     else if g_now i - lastUpdate a1 < updateMs i
                     then Inr (set_atlas (this_state w) a1 w, Returned)
                     else
                       (let w1 = set_atlas (this_state w) (a1\<lparr>lastUpdate := g_now i\<rparr>) w
                        in if g_camMerc i = None then Inr (w1, Returned)
                           else Inr (w1, Proceed))))"

section \<open>Reachable worlds and the pin balance\<close>

text \<open>
  The worlds the atlas can be in: the gates of \<open>update\<close>, compositor frames of either
  path, \<open>clear\<close>, and fetches settling between frames. Each frame and each \<open>clear\<close>
  reads the tile source anew and may find none; options and configuration may change
  from frame to frame.
\<close>

inductive reachable :: "world \<Rightarrow> bool" where
  r_init: "reachable init_world"
| r_gates: "reachable w \<Longrightarrow> update_gates i w = Inr (w', r) \<Longrightarrow> reachable w'"
| r_trap: "reachable w \<Longrightarrow> reachable (trap_composite ops cfg fr w)"
| r_view: "reachable w \<Longrightarrow> view_composite ops cfg fr w = Some w' \<Longrightarrow> reachable w'"
| r_clear: "reachable w \<Longrightarrow> reachable (clear tiles w)"
| r_settle: "reachable w \<Longrightarrow> reachable (settle cfg i out w)"

text \<open>
  The narrower set of worlds reached when every frame and every \<open>clear\<close> finds a tile
  source.
\<close>

inductive sourced :: "world \<Rightarrow> bool" where
  s_init: "sourced init_world"
| s_gates: "sourced w \<Longrightarrow> g_tiles i \<Longrightarrow> update_gates i w = Inr (w', r) \<Longrightarrow> sourced w'"
| s_trap: "sourced w \<Longrightarrow> tf_tiles fr \<Longrightarrow> sourced (trap_composite ops cfg fr w)"
| s_view: "sourced w \<Longrightarrow> vf_tiles fr \<Longrightarrow> view_composite ops cfg fr w = Some w' \<Longrightarrow> sourced w'"
| s_clear: "sourced w \<Longrightarrow> sourced (clear True w)"
| s_settle: "sourced w \<Longrightarrow> sourced (settle cfg i out w)"

text \<open>The active key sets of an atlas, by zoom.\<close>

definition akeys :: "atlas \<Rightarrow> (int \<times> tilekey list) list" where
  "akeys a = map (\<lambda>zs. (fst zs, activeKeys (snd zs))) (byZoom a)"

text \<open>
  The test of the \<open>then\<close> handler fails: in the atlas object the fetch was issued for,
  the zoom has no state left or its state no longer wants the key.
\<close>

definition turned_away :: "world \<Rightarrow> fetch \<Rightarrow> bool" where
  "turned_away w f \<longleftrightarrow>
     (case map_of (byZoom (heap w (fAtlas f))) (fZoom f) of
        None \<Rightarrow> True
      | Some st \<Rightarrow> ckey (fCand f) \<notin> set (activeKeys st))"

definition sans_loads :: "zstate \<Rightarrow> zstate" where
  "sans_loads st = st\<lparr>loads := []\<rparr>"

text \<open>The number of zoom states of an atlas that hold a key in their active set.\<close>

definition holding :: "tilekey \<Rightarrow> (int \<times> tilekey list) list \<Rightarrow> nat" where
  "holding k al = length (filter (\<lambda>zk. k \<in> set (snd zk)) al)"

definition holders :: "atlas \<Rightarrow> tilekey \<Rightarrow> nat" where
  "holders a k = holding k (akeys a)"

text \<open>The active keys recorded for a zoom, none when the zoom has no state.\<close>

definition keys_at :: "(int \<times> tilekey list) list \<Rightarrow> int \<Rightarrow> tilekey list" where
  "keys_at al z = (case map_of al z of None \<Rightarrow> [] | Some ks \<Rightarrow> ks)"

text \<open>
  The pin balance: zoom keys are distinct, every active set is duplicate-free, and the
  net pin count of a key is the number of zoom states that hold it.
\<close>

definition balanced :: "(int \<times> tilekey list) list \<Rightarrow> (tilekey \<Rightarrow> int) \<Rightarrow> bool" where
  "balanced al p \<longleftrightarrow>
     distinct (map fst al) \<and> list_all (\<lambda>zk. distinct (snd zk)) al
     \<and> (\<forall>k. p k = int (holding k al))"

definition pin_inv :: "world \<Rightarrow> bool" where
  "pin_inv w \<longleftrightarrow> balanced (akeys (cur w)) (pins w)"

section \<open>The zoom a distance asks for\<close>

text \<open>
  A JavaScript number that may be \<open>NaN\<close> or infinite, for the distance argument
  (\<open>distanceToTile3D\<close> returns \<open>Infinity\<close> when it has no answer). Finite doubles are
  read as reals; a real of magnitude \<open>2^1024\<close> or more stands for an overflow to
  infinity and fails \<open>Number.isFinite\<close>.
\<close>

datatype jsnum = NaN | NegInf | Fin real | PosInf

fun js_le :: "jsnum \<Rightarrow> jsnum \<Rightarrow> bool" where
  "js_le NaN b = False"
| "js_le a NaN = False"
| "js_le NegInf b = True"
| "js_le (Fin x) NegInf = False"
| "js_le (Fin x) (Fin y) = (x \<le> y)"
| "js_le (Fin x) PosInf = True"
| "js_le PosInf PosInf = True"
| "js_le PosInf b = False"

definition js_finite :: "real \<Rightarrow> bool" where
  "js_finite x \<longleftrightarrow> \<bar>x\<bar> < 2 ^ 1024"

definition WORLD :: real where
  "WORLD = 2 * pi * 6378137"

definition clampz :: "int \<Rightarrow> int \<Rightarrow> int \<Rightarrow> int" where
  "clampz v a b = max a (min b v)"

record lod_camera =
  isOrthographicCamera :: bool
  camTop :: real
  camBottom :: real
  fov :: real

text \<open>\<open>Math.max(1, Number(distMeters) || 1)\<close>; \<open>None\<close> is \<open>Infinity\<close>.\<close>

fun dist_floor :: "jsnum \<Rightarrow> real option" where
  "dist_floor NaN = Some 1"
| "dist_floor NegInf = Some 1"
| "dist_floor (Fin r) = Some (max 1 (if r = 0 then 1 else r))"
| "dist_floor PosInf = None"

text \<open>
  The metres one pixel covers; \<open>None\<close> when the code leaves it \<open>null\<close> or the product
  with an infinite distance is not finite.
\<close>

definition metersPerPixel ::
  "(real \<Rightarrow> real) \<Rightarrow> lod_camera \<Rightarrow> real \<Rightarrow> real option \<Rightarrow> real option" where
  "metersPerPixel toMeters cam viewportH d =
     (if isOrthographicCamera cam then
        (let frustumH = toMeters \<bar>camTop cam - camBottom cam\<bar>
         in if js_finite frustumH \<and> frustumH > 0 then Some (frustumH / viewportH) else None)
      else
        (let fovRad = fov cam * (pi / 180)
         in if js_finite fovRad \<and> fovRad > 1 / 10 ^ 6 \<and> fovRad < pi - 1 / 10 ^ 6 then
              (case d of None \<Rightarrow> None
               | Some dd \<Rightarrow> Some (2 * dd * tan (fovRad / 2) / viewportH))
            else None))"

definition zoomErrorScale :: "real option \<Rightarrow> real" where
  "zoomErrorScale c = (case c of Some v \<Rightarrow> max (1 / 4) v | None \<Rightarrow> 1)"

text \<open>From the metres per pixel to the zoom: the second half of the function.\<close>

definition zoom_for_mpp :: "real \<Rightarrow> int \<Rightarrow> int \<Rightarrow> real \<Rightarrow> int" where
  "zoom_for_mpp errScale minZoom topZoom m =
     (if \<not> js_finite m \<or> m \<le> 0 then minZoom
      else (let m1 = m * errScale;
                q = WORLD / (256 * m1)
            in if \<not> js_finite m1 \<or> \<not> js_finite q \<or> q \<le> 0 then minZoom
               else clampz (toInt32 \<lceil>log 2 q\<rceil>) minZoom topZoom))"

definition desiredZoomForDistance ::
  "(real \<Rightarrow> real) \<Rightarrow> lod_camera \<Rightarrow> real \<Rightarrow> real \<Rightarrow> int \<Rightarrow> int \<Rightarrow> jsnum \<Rightarrow> int" where
  "desiredZoomForDistance toMeters cam viewportH errScale minZoom topZoom distMeters =
     (case metersPerPixel toMeters cam viewportH (dist_floor distMeters) of
        None \<Rightarrow> minZoom
      | Some m \<Rightarrow> zoom_for_mpp errScale minZoom topZoom m)"

text \<open>
  The quotient \<open>WORLD / (256 * metersPerPixel)\<close> of a perspective camera at the least
  distance the function works with, one metre.
\<close>

definition nearQuotient :: "lod_camera \<Rightarrow> real \<Rightarrow> real \<Rightarrow> real" where
  "nearQuotient cam viewportH errScale =
     WORLD / (256 * (2 * 1 * tan (fov cam * (pi / 180) / 2) / viewportH * errScale))"

section \<open>The trapezoid selector's refinement loop\<close>

record tnode =
  nX :: int
  nY :: int
  nZ :: int

text \<open>
  What the loop reads of the frame. Visibility in the frustum, the distance from the
  camera to a tile's rectangle and the zoom its three-dimensional distance asks for are
  given per tile.
\<close>

record trap_env =
  te_scheme :: string
  te_minZoom :: int
  te_topZoom :: int
  te_maxLeafTiles :: int
  te_maxWork :: int
  te_maxRangeMeters :: real
  te_visible :: "tnode \<Rightarrow> bool"
  te_rectDist :: "tnode \<Rightarrow> real"
  te_desiredZ :: "tnode \<Rightarrow> int"

definition maxLeafTiles_of :: "int option \<Rightarrow> int" where
  "maxLeafTiles_of c = (case c of Some v \<Rightarrow> max 16 (toInt32 v) | None \<Rightarrow> 4096)"

definition maxWork_of :: "int option \<Rightarrow> int" where
  "maxWork_of c = (case c of Some v \<Rightarrow> max 64 (toInt32 v) | None \<Rightarrow> 200000)"

text \<open>The stack is kept with its top at the head of the list.\<close>

record trap_state =
  stack :: "tnode list"
  leaves :: int
  work :: int
  tilesByZoom :: "(int \<times> candidate list) list"
  totalConsidered :: nat
  frustumPassed :: nat
  nearPassed :: nat
  refined :: nat

definition cand_of :: "trap_env \<Rightarrow> tnode \<Rightarrow> candidate" where
  "cand_of e t = \<lparr>ckey = tileKey (te_scheme e) (nZ t) (nX t) (nY t), tileX = nX t,
                   tileY = nY t, rectDist = te_rectDist e t\<rparr>"

text \<open>Appending a tile to the array of its zoom, and counting it as a leaf.\<close>

definition add_tile :: "trap_env \<Rightarrow> tnode \<Rightarrow> trap_state \<Rightarrow> trap_state" where
  "add_tile e t s =
     s\<lparr>tilesByZoom := AList.update (nZ t) (tiles_at (tilesByZoom s) (nZ t) @ [cand_of e t])
                         (tilesByZoom s),
       leaves := leaves s + 1\<rparr>"

definition children :: "tnode \<Rightarrow> tnode list" where
  "children t =
     (let z1 = nZ t + 1; x2 = nX t * 2; y2 = nY t * 2
      in [\<lparr>nX = x2, nY = y2, nZ = z1\<rparr>, \<lparr>nX = x2 + 1, nY = y2, nZ = z1\<rparr>,
          \<lparr>nX = x2, nY = y2 + 1, nZ = z1\<rparr>, \<lparr>nX = x2 + 1, nY = y2 + 1, nZ = z1\<rparr>])"

text \<open>One round of the loop, for the tile \<open>t\<close> popped off a stack leaving \<open>rest\<close>.\<close>

definition refine_tile :: "trap_env \<Rightarrow> tnode \<Rightarrow> tnode list \<Rightarrow> trap_state \<Rightarrow> trap_state" where
  "refine_tile e t rest s =
     (let s1 = s\<lparr>stack := rest, work := work s + 1, totalConsidered := Suc (totalConsidered s)\<rparr>;
          visible = te_visible e t
      in if \<not> visible \<and> nZ t > te_minZoom e then s1
         else
           (let s2 = (if visible then s1\<lparr>frustumPassed := Suc (frustumPassed s1)\<rparr> else s1)
            in if te_rectDist e t > te_maxRangeMeters e then s2
               else
                 (let s3 = s2\<lparr>nearPassed := Suc (nearPassed s2)\<rparr>;
                      desiredZ = (if visible then te_desiredZ e t else nZ t);
                      canRefine = (nZ t < te_topZoom e \<and> desiredZ > nZ t
                                   \<and> leaves s3 < te_maxLeafTiles e)
                  in if canRefine
                     then s3\<lparr>stack := rev (children t) @ rest, refined := Suc (refined s3)\<rparr>
                     else add_tile e t s3)))"

function refine_loop :: "trap_env \<Rightarrow> trap_state \<Rightarrow> trap_state" where
  "refine_loop e s =
     (case stack s of
        [] \<Rightarrow> s
      | t # rest \<Rightarrow> if work s < te_maxWork e then refine_loop e (refine_tile e t rest s) else s)"
  by pat_completeness auto
termination
  by (relation "measure (\<lambda>(e, s). nat (te_maxWork e - work s))")
     (auto simp: refine_tile_def add_tile_def Let_def)

text \<open>
  After the loop: \<open>if (stack.length) for (const t of stack) ...\<close>, from the bottom of
  the stack to its top.
\<close>

definition flush_stack :: "trap_env \<Rightarrow> trap_state \<Rightarrow> trap_state" where
  "flush_stack e s = fold (add_tile e) (rev (stack s)) s"

definition trap_start :: "tnode list \<Rightarrow> trap_state" where
  "trap_start initial = \<lparr>stack = rev initial, leaves = 0, work = 0, tilesByZoom = [],
     totalConsidered = 0, frustumPassed = 0, nearPassed = 0, refined = 0\<rparr>"

definition trapezoid_select :: "trap_env \<Rightarrow> tnode list \<Rightarrow> trap_state" where
  "trapezoid_select e initial = flush_stack e (refine_loop e (trap_start initial))"

section \<open>Example values\<close>

definition ex_ops :: opts where
  "ex_ops = \<lparr>mapDrapeAtlasMipmaps = True, mapDrapeAtlasMaxNewLoadsPerTick = 1\<rparr>"

definition ex_cfg :: config where
  "ex_cfg = \<lparr>cellSizeByZoom = (\<lambda>z. None), cellSizeAll = None, tileSizeCfg = Some 256,
     skipTileLoad = False, tileScheme = ''xyz''\<rparr>"

definition ex_key :: "int \<Rightarrow> int \<Rightarrow> int \<Rightarrow> tilekey" where
  "ex_key z x y = tileKey ''xyz'' z x y"

definition ex_tex :: "nat \<Rightarrow> texture" where
  "ex_tex n = \<lparr>texId = n, imgWidth = Some 256, imgHeight = Some 256\<rparr>"

definition ex_zstate :: zstate where
  "ex_zstate = \<lparr>zoom = 14, grid = \<lparr>originX = 100, originY = 50, gridSize = 2\<rparr>, cellSize = 256,
     rt = 0, useMipmaps = True, meshes = replicate 4 blank_material,
     loads = [(ex_key 14 101 50, 7)], activeKeys = [ex_key 14 100 50, ex_key 14 101 50],
     dirty = False, textures = [(ex_key 14 100 50, ex_tex 3)]\<rparr>"

definition ex_world :: world where
  "ex_world = put_zstate 0 14 ex_zstate (init_world\<lparr>nextRt := 1\<rparr>)"

definition ex_env :: trap_env where
  "ex_env = \<lparr>te_scheme = ''xyz'', te_minZoom = 2, te_topZoom = 5,
     te_maxLeafTiles = maxLeafTiles_of None, te_maxWork = maxWork_of (Some 64),
     te_maxRangeMeters = 5000, te_visible = (\<lambda>t. True), te_rectDist = (\<lambda>t. 0),
     te_desiredZ = (\<lambda>t. 5)\<rparr>"

definition ex_root :: tnode where
  "ex_root = \<lparr>nX = 0, nY = 0, nZ = 2\<rparr>"

definition ex_cam :: lod_camera where
  "ex_cam = \<lparr>isOrthographicCamera = False, camTop = 0, camBottom = 0, fov = 60\<rparr>"

definition ex_cand :: "int \<Rightarrow> int \<Rightarrow> int \<Rightarrow> real \<Rightarrow> candidate" where
  "ex_cand z x y d = \<lparr>ckey = ex_key z x y, tileX = x, tileY = y, rectDist = d\<rparr>"

definition ex_center :: "int \<Rightarrow> (int \<times> int) option" where
  "ex_center z = (if z = 14 then Some (100, 50) else if z = 13 then Some (50, 25) else None)"

text \<open>A trapezoid-path frame that wants two tiles at zoom 14.\<close>

definition ex_frame_a :: trap_frame where
  "ex_frame_a = \<lparr>tf_tiles = True, tf_topZoom = 14, tf_minZoom = 14,
     tf_tilesByZoom = [(14, [ex_cand 14 100 50 0, ex_cand 14 101 50 10])],
     tf_center = ex_center\<rparr>"

definition ex_world_a :: world where
  "ex_world_a = trap_composite ex_ops ex_cfg ex_frame_a init_world"

definition ex_view :: "real \<Rightarrow> view" where
  "ex_view x = \<lparr>vx = x, vy = 300, vz = 0, qx = 0, qy = 0, qz = 0, qw = 1\<rparr>"

text \<open>
  A frame with the debounce block of the sample configuration (150 ms, 15 m, 20 m,
  1.5 degrees) and a throttle of 250 ms, the camera at \<open>x\<close> and 300 units up, at time
  \<open>now\<close>, with no ground height.
\<close>

definition ex_gate :: "real \<Rightarrow> real \<Rightarrow> (real \<times> real) option \<Rightarrow> real option \<Rightarrow> gate_in" where
  "ex_gate x now merc below =
     \<lparr>g_enabled = True, g_tiles = True, g_camera = Some (ex_view x), g_camMerc = merc,
      g_elevAtMercator = None, g_heightAtWorld = None, g_toMeters = (\<lambda>v. v),
      g_enableBelowOrEqualHeight = below, g_now = now,
      g_lodDebounceMs = Some 150, g_cfgDebounceMs = None,
      g_lodMoveMeters = Some 15, g_cfgMoveMeters = None,
      g_lodHeightMeters = Some 20, g_cfgHeightMeters = None,
      g_lodAngleDeg = Some (3 / 2), g_cfgAngleDeg = None,
      g_lodUpdateMs = Some 250, g_cfgUpdateMs = None\<rparr>"

text \<open>A world whose last frame saw the camera at the origin and updated at time 700.\<close>

definition ex_seen :: world where
  "ex_seen = set_atlas 0 (empty_atlas\<lparr>lastView := Some (ex_view 0), lastUpdate := 700\<rparr>)
               init_world"

text \<open>A frame that wants only the first of the two tiles, and the world after both frames.\<close>

definition ex_frame_one :: trap_frame where
  "ex_frame_one = \<lparr>tf_tiles = True, tf_topZoom = 14, tf_minZoom = 14,
     tf_tilesByZoom = [(14, [ex_cand 14 100 50 0])], tf_center = ex_center\<rparr>"

definition ex_world_a1 :: world where
  "ex_world_a1 = trap_composite ex_ops ex_cfg ex_frame_one ex_world_a"

text \<open>
  A frame that wants only the second tile, the world it leaves after the two-tile frame
  (the fetch of the first tile still in flight), and a tile image of 512 pixels.
\<close>

definition ex_frame_other :: trap_frame where
  "ex_frame_other = \<lparr>tf_tiles = True, tf_topZoom = 14, tf_minZoom = 14,
     tf_tilesByZoom = [(14, [ex_cand 14 101 50 0])], tf_center = ex_center\<rparr>"

definition ex_world_a2 :: world where
  "ex_world_a2 = trap_composite ex_ops ex_cfg ex_frame_other ex_world_a"



text \<open>
  Two tiles of one row at zoom 14, sixteen columns apart, handed to the compositor by
  the trapezoid selector and by the viewport selector on a GPU whose largest render
  target is 4096.
\<close>

definition ex_wide :: "candidate list" where
  "ex_wide = [ex_cand 14 100 50 0, ex_cand 14 116 50 16]"

definition ex_frame_wide :: trap_frame where
  "ex_frame_wide = \<lparr>tf_tiles = True, tf_topZoom = 14, tf_minZoom = 14,
     tf_tilesByZoom = [(14, ex_wide)], tf_center = ex_center\<rparr>"

definition ex_view_wide :: view_frame where
  "ex_view_wide = \<lparr>vf_tiles = True, vf_maxRT = Some 4096, vf_maxTex = Some 4096,
     vf_minTileZoom = 14, vf_maxTileZoom = 14, vf_noCoverage = (\<lambda>z. False),
     vf_plan = (\<lambda>z. Candidates (100, 50) ex_wide)\<rparr>"

text \<open>
  One uncached tile at each of the zooms 14 and 13, for either selector; for the
  trapezoid selector the tile at zoom 13 is the neighbour of the other's parent.
\<close>

definition ex_frame_b :: trap_frame where
  "ex_frame_b = \<lparr>tf_tiles = True, tf_topZoom = 14, tf_minZoom = 13,
     tf_tilesByZoom = [(14, [ex_cand 14 100 50 0]), (13, [ex_cand 13 51 25 0])],
     tf_center = ex_center\<rparr>"

definition ex_view_b :: view_frame where
  "ex_view_b = \<lparr>vf_tiles = True, vf_maxRT = Some 4096, vf_maxTex = Some 4096,
     vf_minTileZoom = 13, vf_maxTileZoom = 14, vf_noCoverage = (\<lambda>z. False),
     vf_plan = (\<lambda>z. if z = 14 then Candidates (100, 50) [ex_cand 14 100 50 0]
                     else Candidates (50, 25) [ex_cand 13 50 25 0])\<rparr>"

text \<open>
  A tile wanted, then not wanted for a frame, then wanted again, with the first fetch
  failing only after the second was issued, and one more frame wanting the tile.
\<close>

definition ex_frame_none :: trap_frame where
  "ex_frame_none = \<lparr>tf_tiles = True, tf_topZoom = 14, tf_minZoom = 14,
     tf_tilesByZoom = [], tf_center = ex_center\<rparr>"

definition ex_world_c3 :: world where
  "ex_world_c3 = trap_composite ex_ops ex_cfg ex_frame_one
     (trap_composite ex_ops ex_cfg ex_frame_none
        (trap_composite ex_ops ex_cfg ex_frame_one init_world))"

definition ex_world_c5 :: world where
  "ex_world_c5 = trap_composite ex_ops ex_cfg ex_frame_one (settle ex_cfg 0 Rejected ex_world_c3)"

text \<open>
  Frames that find no tile source. After the two-tile frame, a frame without a source
  wants only the second tile and the next frame, with a source, wants none. From the
  empty atlas, a frame without a source wants one tile and the next, with a source,
  wants none.
\<close>

definition ex_world_leak :: world where
  "ex_world_leak = trap_composite ex_ops ex_cfg ex_frame_none
     (trap_composite ex_ops ex_cfg (ex_frame_other\<lparr>tf_tiles := False\<rparr>) ex_world_a)"

definition ex_world_unpinned :: world where
  "ex_world_unpinned = trap_composite ex_ops ex_cfg ex_frame_none
     (trap_composite ex_ops ex_cfg (ex_frame_one\<lparr>tf_tiles := False\<rparr>) init_world)"


text \<open>
  A zoom state with all four cells bound and two resident textures, one of them under a
  key whose scheme contains the separator.
\<close>

definition ex_bound :: zstate where
  "ex_bound = ex_zstate\<lparr>
     meshes := replicate 4 \<lparr>matMap = Some (ex_tex 3), opacity = 1, transparent = False,
                             needsUpdate = False\<rparr>,
     textures := [(ex_key 14 101 50, ex_tex 3), (TileKey ''x-y'' 14 101 50, ex_tex 3)]\<rparr>"

section \<open>Properties\<close>

subsection \<open>Tile coordinates read back from a key\<close>

text \<open>
  Dropping a resident texture clears the cell its key names. A key whose scheme contains
  the separator splits into parts of which the second is no number: the texture goes,
  the cell stays bound.
\<close>

lemma drop_texture_examples:
  "js_split CHR ''-'' (key_string (ex_key 14 101 50)) = [''t:xyz:14'', ''101'', ''50'']"
  "map matMap (meshes (drop_texture [] (ex_key 14 101 50) ex_bound))
     = [Some (ex_tex 3), None, Some (ex_tex 3), Some (ex_tex 3)]"
  "js_split CHR ''-'' (key_string (TileKey ''x-y'' 14 101 50)) = [''t:x'', ''y:14'', ''101'', ''50'']"
  "meshes (drop_texture [] (TileKey ''x-y'' 14 101 50) ex_bound) = meshes ex_bound"
  "map fst (textures (drop_texture [] (TileKey ''x-y'' 14 101 50) ex_bound)) = [ex_key 14 101 50]"
  by code_simp+

subsection \<open>Reusing and rebuilding a zoom state\<close>

text \<open>
  Claim C8. When a state exists for the zoom, \<open>_ensureZoomState\<close> called with the grid
  of that state and with a cell size that, truncated to a 32-bit integer of at least
  \<open>1\<close> as the function does, is the state's, returns that state and leaves the world
  (the atlas and the render-target log) as it is. Called with any other grid or cell
  size, it returns a state with the requested grid and cell size that holds the old
  state's textures, loads map and active keys, registers it for the zoom, disposes the old
  render target and allocates one new render target.
\<close>

theorem ensureZoomState_reuse_or_carry:
  assumes "map_of (byZoom (cur w)) z = Some st"
  shows "(originX (grid st) = originX g \<and> originY (grid st) = originY g
            \<and> gridSize (grid st) = gridSize g \<and> cellSize st = max 1 (toInt32 c)
          \<longrightarrow> ensureZoomState ops cfg z g (Some c) w = (w, st))
       \<and> (\<not> (originX (grid st) = originX g \<and> originY (grid st) = originY g
            \<and> gridSize (grid st) = gridSize g \<and> cellSize st = max 1 (toInt32 c))
          \<longrightarrow> (let r = ensureZoomState ops cfg z g (Some c) w
               in textures (snd r) = textures st \<and> loads (snd r) = loads st
                  \<and> activeKeys (snd r) = activeKeys st
                  \<and> grid (snd r) = g \<and> cellSize (snd r) = max 1 (toInt32 c)
                  \<and> map_of (byZoom (cur (fst r))) z = Some (snd r)
                  \<and> gpu (fst r) = gpu w @ [RtDispose (rt st),
                        RtCreate (nextRt w) (max 1 (gridSize g) * max 1 (toInt32 c))]))"
  using assms
  by (auto simp: ensureZoomState_def Let_def cur_def put_zstate_def set_atlas_def update_conv)

theorem ensureZoomState_reuse_or_carry_witness:
  "map_of (byZoom (cur ex_world)) 14 = Some ex_zstate
   \<and> ensureZoomState ex_ops ex_cfg 14 \<lparr>originX = 100, originY = 50, gridSize = 2\<rparr> (Some 256) ex_world
       = (ex_world, ex_zstate)
   \<and> textures (snd (ensureZoomState ex_ops ex_cfg 14 \<lparr>originX = 100, originY = 50, gridSize = 4\<rparr>
         (Some 256) ex_world)) = [(ex_key 14 100 50, ex_tex 3)]
   \<and> loads (snd (ensureZoomState ex_ops ex_cfg 14 \<lparr>originX = 100, originY = 50, gridSize = 4\<rparr>
         (Some 256) ex_world)) = [(ex_key 14 101 50, 7)]
   \<and> activeKeys (snd (ensureZoomState ex_ops ex_cfg 14 \<lparr>originX = 100, originY = 50, gridSize = 4\<rparr>
         (Some 256) ex_world)) = [ex_key 14 100 50, ex_key 14 101 50]
   \<and> gpu (fst (ensureZoomState ex_ops ex_cfg 14 \<lparr>originX = 100, originY = 50, gridSize = 4\<rparr>
         (Some 256) ex_world)) = [RtDispose 0, RtCreate 1 1024]"
proof -
  have old: "map_of (byZoom (cur ex_world)) 14 = Some ex_zstate"
    by (simp add: ex_world_def cur_def put_zstate_def set_atlas_def init_world_def empty_atlas_def)
  have c: "max 1 (toInt32 256) = 256"
    by (simp add: toInt32_def)
  have g: "gpu ex_world = []" "nextRt ex_world = 1"
    by (simp_all add: ex_world_def put_zstate_def set_atlas_def init_world_def)
  show ?thesis
    using old
      ensureZoomState_reuse_or_carry [OF old, of "\<lparr>originX = 100, originY = 50, gridSize = 2\<rparr>" 256 ex_ops ex_cfg]
      ensureZoomState_reuse_or_carry [OF old, of "\<lparr>originX = 100, originY = 50, gridSize = 4\<rparr>" 256 ex_ops ex_cfg]
    by (simp add: c g Let_def ex_zstate_def)
qed

subsection \<open>The refinement loop and its work cap\<close>

lemma work_refine_tile: "work (refine_tile e t rest s) = work s + 1"
  by (simp add: refine_tile_def add_tile_def Let_def)

lemma total_refine_tile: "totalConsidered (refine_tile e t rest s) = Suc (totalConsidered s)"
  by (simp add: refine_tile_def add_tile_def Let_def)

lemma refine_loop_work_le: "work (refine_loop e s) \<le> max (work s) (te_maxWork e)"
proof (induction e s rule: refine_loop.induct)
  case (1 e s)
  show ?case
  proof (cases "stack s")
    case Nil
    then show ?thesis by simp
  next
    case (Cons t rest)
    show ?thesis
    proof (cases "work s < te_maxWork e")
      case True
      from "1.IH" [OF Cons True]
      have "work (refine_loop e (refine_tile e t rest s)) \<le> max (work s + 1) (te_maxWork e)"
        by (simp add: work_refine_tile)
      with Cons True show ?thesis by simp
    next
      case False
      with Cons show ?thesis by simp
    qed
  qed
qed

lemma refine_loop_stops:
  "stack (refine_loop e s) = [] \<or> te_maxWork e \<le> work (refine_loop e s)"
proof (induction e s rule: refine_loop.induct)
  case (1 e s)
  show ?case
  proof (cases "stack s")
    case Nil
    then show ?thesis by simp
  next
    case (Cons t rest)
    show ?thesis
    proof (cases "work s < te_maxWork e")
      case True
      with Cons "1.IH" [OF Cons True] show ?thesis by simp
    next
      case False
      with Cons show ?thesis by simp
    qed
  qed
qed

lemma refine_loop_counts:
  "int (totalConsidered (refine_loop e s)) - work (refine_loop e s)
     = int (totalConsidered s) - work s"
proof (induction e s rule: refine_loop.induct)
  case (1 e s)
  show ?case
  proof (cases "stack s")
    case Nil
    then show ?thesis by simp
  next
    case (Cons t rest)
    show ?thesis
    proof (cases "work s < te_maxWork e")
      case True
      with Cons "1.IH" [OF Cons True] show ?thesis
        by (simp add: work_refine_tile total_refine_tile)
    next
      case False
      with Cons show ?thesis by simp
    qed
  qed
qed

lemma tiles_at_add_tile:
  "tiles_at (tilesByZoom (add_tile e t s)) z =
     (if z = nZ t then tiles_at (tilesByZoom s) z @ [cand_of e t] else tiles_at (tilesByZoom s) z)"
  by (simp add: add_tile_def tiles_at_def update_conv)

lemma tiles_at_fold_add:
  "tiles_at (tilesByZoom (fold (add_tile e) ts s)) z =
     tiles_at (tilesByZoom s) z @ map (cand_of e) (filter (\<lambda>t. nZ t = z) ts)"
  by (induction ts arbitrary: s) (auto simp: tiles_at_add_tile)

lemma flush_keeps:
  "t \<in> set (stack s) \<Longrightarrow> cand_of e t \<in> set (tiles_at (tilesByZoom (flush_stack e s)) (nZ t))"
  by (simp add: flush_stack_def tiles_at_fold_add)

lemma flush_appends:
  "tiles_at (tilesByZoom (flush_stack e s)) z =
     tiles_at (tilesByZoom s) z @ map (cand_of e) (filter (\<lambda>t. nZ t = z) (rev (stack s)))"
  by (simp add: flush_stack_def tiles_at_fold_add)

text \<open>
  Claim C7. \<open>refine_loop\<close> is a total function: the loop returns from every stack, its
  termination measure being the work left under the cap. Started by the selector (no work
  done), it pops at most \<open>maxWork\<close> entries, \<open>totalConsidered\<close> counting each; it stops
  with an empty stack or with the cap reached. Every entry left on the stack then is in
  the selector's output as a candidate with the entry's own key, tile coordinates and
  distance, in the array of the entry's own zoom. For each zoom the selector's output is
  the array the loop had built, followed by one such candidate for each entry of that
  zoom left on the stack, from the bottom of the stack to its top: the flush removes no
  tile the loop accepted and refines none of the entries it keeps.
\<close>

theorem refine_loop_capped:
  "work (refine_loop e (trap_start initial)) \<le> max 0 (te_maxWork e)
   \<and> int (totalConsidered (refine_loop e (trap_start initial)))
       = work (refine_loop e (trap_start initial))
   \<and> (stack (refine_loop e (trap_start initial)) = []
        \<or> te_maxWork e \<le> work (refine_loop e (trap_start initial)))
   \<and> (\<forall>t \<in> set (stack (refine_loop e (trap_start initial))).
         cand_of e t \<in> set (tiles_at (tilesByZoom (trapezoid_select e initial)) (nZ t)))
   \<and> (\<forall>t \<in> set (stack (refine_loop e (trap_start initial))).
         \<lparr>ckey = TileKey (te_scheme e) (nZ t) (nX t) (nY t), tileX = nX t, tileY = nY t,
          rectDist = te_rectDist e t\<rparr>
           \<in> set (tiles_at (tilesByZoom (trapezoid_select e initial)) (nZ t)))
   \<and> (\<forall>z. tiles_at (tilesByZoom (trapezoid_select e initial)) z
            = tiles_at (tilesByZoom (refine_loop e (trap_start initial))) z
              @ map (\<lambda>t. \<lparr>ckey = TileKey (te_scheme e) (nZ t) (nX t) (nY t), tileX = nX t,
                           tileY = nY t, rectDist = te_rectDist e t\<rparr>)
                  (filter (\<lambda>t. nZ t = z) (rev (stack (refine_loop e (trap_start initial))))))"
proof -
  have c: "cand_of e = (\<lambda>t. \<lparr>ckey = TileKey (te_scheme e) (nZ t) (nX t) (nY t), tileX = nX t,
                               tileY = nY t, rectDist = te_rectDist e t\<rparr>)"
    by (rule ext) (simp add: cand_of_def tileKey_def)
  have k: "\<forall>t \<in> set (stack (refine_loop e (trap_start initial))).
         cand_of e t \<in> set (tiles_at (tilesByZoom (trapezoid_select e initial)) (nZ t))"
    by (simp add: trapezoid_select_def flush_keeps)
  have a: "\<forall>z. tiles_at (tilesByZoom (trapezoid_select e initial)) z
            = tiles_at (tilesByZoom (refine_loop e (trap_start initial))) z
              @ map (cand_of e)
                  (filter (\<lambda>t. nZ t = z) (rev (stack (refine_loop e (trap_start initial)))))"
    by (simp add: trapezoid_select_def flush_appends)
  have w: "work (refine_loop e (trap_start initial)) \<le> max 0 (te_maxWork e)"
    using refine_loop_work_le [of e "trap_start initial"] by (simp add: trap_start_def)
  have n: "int (totalConsidered (refine_loop e (trap_start initial)))
       = work (refine_loop e (trap_start initial))"
    using refine_loop_counts [of e "trap_start initial"] by (simp add: trap_start_def)
  note s = refine_loop_stops [of e "trap_start initial"]
  from k a have "(\<forall>t \<in> set (stack (refine_loop e (trap_start initial))).
         \<lparr>ckey = TileKey (te_scheme e) (nZ t) (nX t) (nY t), tileX = nX t, tileY = nY t,
          rectDist = te_rectDist e t\<rparr>
           \<in> set (tiles_at (tilesByZoom (trapezoid_select e initial)) (nZ t)))
   \<and> (\<forall>z. tiles_at (tilesByZoom (trapezoid_select e initial)) z
            = tiles_at (tilesByZoom (refine_loop e (trap_start initial))) z
              @ map (\<lambda>t. \<lparr>ckey = TileKey (te_scheme e) (nZ t) (nX t) (nY t), tileX = nX t,
                           tileY = nY t, rectDist = te_rectDist e t\<rparr>)
                  (filter (\<lambda>t. nZ t = z) (rev (stack (refine_loop e (trap_start initial))))))"
    unfolding c by blast
  with w n s k show ?thesis by blast
qed

theorem refine_loop_capped_witness:
  "stack (refine_loop ex_env (trap_start [ex_root])) = [\<lparr>nX = 0, nY = 0, nZ = 3\<rparr>]
   \<and> work (refine_loop ex_env (trap_start [ex_root])) = 64
   \<and> te_maxWork ex_env = 64
   \<and> cand_of ex_env \<lparr>nX = 0, nY = 0, nZ = 3\<rparr>
       \<in> set (tiles_at (tilesByZoom (trapezoid_select ex_env [ex_root])) 3)
   \<and> \<lparr>ckey = TileKey (te_scheme ex_env) 3 0 0, tileX = 0, tileY = 0,
        rectDist = te_rectDist ex_env \<lparr>nX = 0, nY = 0, nZ = 3\<rparr>\<rparr>
       \<in> set (tiles_at (tilesByZoom (trapezoid_select ex_env [ex_root])) 3)
   \<and> tiles_at (tilesByZoom (trapezoid_select ex_env [ex_root])) 3
       = tiles_at (tilesByZoom (refine_loop ex_env (trap_start [ex_root]))) 3
         @ [\<lparr>ckey = TileKey (te_scheme ex_env) 3 0 0, tileX = 0, tileY = 0,
             rectDist = te_rectDist ex_env \<lparr>nX = 0, nY = 0, nZ = 3\<rparr>\<rparr>]"
proof -
  have s: "stack (refine_loop ex_env (trap_start [ex_root])) = [\<lparr>nX = 0, nY = 0, nZ = 3\<rparr>]"
    by code_simp
  have w: "work (refine_loop ex_env (trap_start [ex_root])) = 64"
    by code_simp
  have m: "te_maxWork ex_env = 64"
    by code_simp
  note t = refine_loop_capped [of ex_env "[ex_root]"]
  from t have "\<forall>t \<in> set (stack (refine_loop ex_env (trap_start [ex_root]))).
          cand_of ex_env t \<in> set (tiles_at (tilesByZoom (trapezoid_select ex_env [ex_root])) (nZ t))"
    by blast
  with s have c1: "cand_of ex_env \<lparr>nX = 0, nY = 0, nZ = 3\<rparr>
       \<in> set (tiles_at (tilesByZoom (trapezoid_select ex_env [ex_root])) 3)"
    by simp
  from t have "\<forall>t \<in> set (stack (refine_loop ex_env (trap_start [ex_root]))).
         \<lparr>ckey = TileKey (te_scheme ex_env) (nZ t) (nX t) (nY t), tileX = nX t, tileY = nY t,
          rectDist = te_rectDist ex_env t\<rparr>
           \<in> set (tiles_at (tilesByZoom (trapezoid_select ex_env [ex_root])) (nZ t))"
    by blast
  with s have c2: "\<lparr>ckey = TileKey (te_scheme ex_env) 3 0 0, tileX = 0, tileY = 0,
        rectDist = te_rectDist ex_env \<lparr>nX = 0, nY = 0, nZ = 3\<rparr>\<rparr>
       \<in> set (tiles_at (tilesByZoom (trapezoid_select ex_env [ex_root])) 3)"
    by simp
  from t have "tiles_at (tilesByZoom (trapezoid_select ex_env [ex_root])) 3
            = tiles_at (tilesByZoom (refine_loop ex_env (trap_start [ex_root]))) 3
              @ map (\<lambda>t. \<lparr>ckey = TileKey (te_scheme ex_env) (nZ t) (nX t) (nY t), tileX = nX t,
                           tileY = nY t, rectDist = te_rectDist ex_env t\<rparr>)
                  (filter (\<lambda>t. nZ t = 3) (rev (stack (refine_loop ex_env (trap_start [ex_root])))))"
    by blast
  with s have c3: "tiles_at (tilesByZoom (trapezoid_select ex_env [ex_root])) 3
       = tiles_at (tilesByZoom (refine_loop ex_env (trap_start [ex_root]))) 3
         @ [\<lparr>ckey = TileKey (te_scheme ex_env) 3 0 0, tileX = 0, tileY = 0,
             rectDist = te_rectDist ex_env \<lparr>nX = 0, nY = 0, nZ = 3\<rparr>\<rparr>]"
    by simp
  from s w m c1 c2 c3 show ?thesis by simp
qed

subsection \<open>The desired zoom falls with the distance\<close>

lemma toInt32_id: "- (2 ^ 31) \<le> i \<Longrightarrow> i < 2 ^ 31 \<Longrightarrow> toInt32 i = i"
  by (simp add: toInt32_def)

lemma clampz_range: "a \<le> b \<Longrightarrow> a \<le> clampz v a b \<and> clampz v a b \<le> b"
  by (simp add: clampz_def)

lemma clampz_mono: "v \<le> v' \<Longrightarrow> clampz v a b \<le> clampz v' a b"
  by (auto simp add: clampz_def)

lemma WORLD_ge_1: "1 \<le> WORLD"
proof -
  have "2 \<le> pi" by (rule pi_ge_two)
  then show ?thesis by (simp add: WORLD_def)
qed

lemma ceil_log_bounds:
  assumes "1 / 2 ^ 1032 < q" "q < 2 ^ 1024"
  shows "- (2 ^ 31) \<le> \<lceil>log 2 q\<rceil> \<and> \<lceil>log 2 q\<rceil> < 2 ^ 31"
proof -
  have q0: "0 < q" using assms(1) by (smt (verit) divide_pos_pos zero_less_power)
  have "2 powr (- 1032) = 1 / (2::real) ^ 1032"
    by (simp add: powr_minus_divide)
  with assms(1) have "2 powr (- 1032) < q" by simp
  then have lo: "- 1032 < log 2 q"
    using q0 by (simp add: less_log_iff)
  have "q < 2 powr 1024" using assms(2) by simp
  then have hi: "log 2 q < 1024"
    using q0 by (simp add: log_less_iff)
  from lo have "- 1032 \<le> \<lceil>log 2 q\<rceil>" by linarith
  moreover from hi have "\<lceil>log 2 q\<rceil> \<le> 1024" by linarith
  ultimately show ?thesis by simp
qed

lemma zoom_for_mpp_range:
  "minZoom \<le> topZoom \<Longrightarrow>
     minZoom \<le> zoom_for_mpp S minZoom topZoom m \<and> zoom_for_mpp S minZoom topZoom m \<le> topZoom"
  by (simp add: zoom_for_mpp_def Let_def clampz_range)

lemma quotient_bounds:
  fixes p :: real
  assumes "0 < p" "p < 2 ^ 1024"
  shows "1 / 2 ^ 1032 < WORLD / (256 * p)"
proof -
  have "256 * p < 2 ^ 1032" using assms by simp
  then have "1 / 2 ^ 1032 < 1 / (256 * p)"
    using assms(1) by (simp add: frac_less2)
  also have "\<dots> \<le> WORLD / (256 * p)"
    using WORLD_ge_1 assms(1) by (simp add: divide_right_mono)
  finally show ?thesis .
qed

lemma zoom_for_mpp_mono:
  assumes mt: "minZoom \<le> topZoom" and m1: "0 < m1" and le: "m1 \<le> m2"
    and near: "0 < S \<Longrightarrow> WORLD / (256 * (m1 * S)) < 2 ^ 1024"
  shows "zoom_for_mpp S minZoom topZoom m2 \<le> zoom_for_mpp S minZoom topZoom m1"
proof (cases "zoom_for_mpp S minZoom topZoom m2 = minZoom")
  case True
  then show ?thesis using zoom_for_mpp_range [OF mt, of S m1] by simp
next
  case False
  define p1 where "p1 = m1 * S"
  define p2 where "p2 = m2 * S"
  define q1 where "q1 = WORLD / (256 * p1)"
  define q2 where "q2 = WORLD / (256 * p2)"
  have W: "0 < WORLD" using WORLD_ge_1 by linarith
  from False have f2: "js_finite m2" "0 < m2" "js_finite p2" "js_finite q2" "0 < q2"
    unfolding p2_def q2_def by (auto simp: zoom_for_mpp_def Let_def split: if_splits)
  from f2(5) W have p2pos: "0 < p2"
    unfolding q2_def by (simp add: zero_less_divide_iff)
  with f2(2) have S: "0 < S" unfolding p2_def by (simp add: zero_less_mult_iff)
  have p1pos: "0 < p1" unfolding p1_def using m1 S by simp
  have le': "p1 \<le> p2" unfolding p1_def p2_def using le S by simp
  have fin1: "js_finite m1" using f2(1) m1 le by (simp add: js_finite_def)
  have p2hi: "p2 < 2 ^ 1024" using f2(3) p2pos by (simp add: js_finite_def)
  have p1hi: "p1 < 2 ^ 1024" using p2hi le' by linarith
  have fin1S: "js_finite p1" using p1hi p1pos by (simp add: js_finite_def)
  have q21: "q2 \<le> q1" unfolding q1_def q2_def using p1pos le' W by (simp add: frac_le)
  have q1pos: "0 < q1" unfolding q1_def using p1pos W by simp
  have hi1: "q1 < 2 ^ 1024" unfolding q1_def p1_def using near [OF S] .
  have q1fin: "js_finite q1" using hi1 q1pos by (simp add: js_finite_def)
  have lo2: "1 / 2 ^ 1032 < q2" unfolding q2_def using quotient_bounds [OF p2pos p2hi] .
  have lo1: "1 / 2 ^ 1032 < q1" unfolding q1_def using quotient_bounds [OF p1pos p1hi] .
  have hi2: "q2 < 2 ^ 1024" using f2(4) f2(5) by (simp add: js_finite_def)
  have id1: "toInt32 \<lceil>log 2 q1\<rceil> = \<lceil>log 2 q1\<rceil>"
    using ceil_log_bounds [OF lo1 hi1] by (simp add: toInt32_id)
  have id2: "toInt32 \<lceil>log 2 q2\<rceil> = \<lceil>log 2 q2\<rceil>"
    using ceil_log_bounds [OF lo2 hi2] by (simp add: toInt32_id)
  have "log 2 q2 \<le> log 2 q1" using q21 f2(5) by (simp add: log_mono)
  then have cl: "\<lceil>log 2 q2\<rceil> \<le> \<lceil>log 2 q1\<rceil>" by (rule ceiling_mono)
  have z1: "zoom_for_mpp S minZoom topZoom m1 = clampz \<lceil>log 2 q1\<rceil> minZoom topZoom"
    using fin1 m1 fin1S q1fin q1pos id1
    unfolding zoom_for_mpp_def Let_def p1_def [symmetric] q1_def [symmetric] by simp
  have z2: "zoom_for_mpp S minZoom topZoom m2 = clampz \<lceil>log 2 q2\<rceil> minZoom topZoom"
    using f2 id2
    unfolding zoom_for_mpp_def Let_def p2_def [symmetric] q2_def [symmetric] by simp
  show ?thesis unfolding z1 z2 using cl by (rule clampz_mono)
qed

lemma desiredZoom_range:
  "minZoom \<le> topZoom \<Longrightarrow>
     minZoom \<le> desiredZoomForDistance tm cam V S minZoom topZoom d
     \<and> desiredZoomForDistance tm cam V S minZoom topZoom d \<le> topZoom"
  by (simp add: desiredZoomForDistance_def zoom_for_mpp_range split: option.splits)

lemma dist_floor_mono:
  "js_le d1 d2 \<Longrightarrow>
     dist_floor d2 = None
     \<or> (\<exists>a b. dist_floor d1 = Some a \<and> dist_floor d2 = Some b \<and> 1 \<le> a \<and> a \<le> b)"
  by (cases d1; cases d2) auto

lemma desiredZoom_mono:
  assumes mt: "minZoom \<le> topZoom" and le: "js_le d1 d2"
    and near: "nearQuotient cam V S < 2 ^ 1024"
  shows "desiredZoomForDistance tm cam V S minZoom topZoom d2
           \<le> desiredZoomForDistance tm cam V S minZoom topZoom d1"
proof (cases "metersPerPixel tm cam V (dist_floor d2)")
  case None
  then show ?thesis
    using desiredZoom_range [OF mt, of tm cam V S d1] by (simp add: desiredZoomForDistance_def)
next
  case (Some m2)
  show ?thesis
  proof (cases "isOrthographicCamera cam")
    case True
    then have "metersPerPixel tm cam V (dist_floor d1) = metersPerPixel tm cam V (dist_floor d2)"
      by (simp add: metersPerPixel_def)
    then show ?thesis by (simp add: desiredZoomForDistance_def)
  next
    case False
    define r where "r = tan (fov cam * (pi / 180) / 2) / V"
    from Some False obtain b where b: "dist_floor d2 = Some b" and m2: "m2 = 2 * b * r"
      by (auto simp: metersPerPixel_def Let_def r_def split: if_splits option.splits)
    from dist_floor_mono [OF le] b obtain a where a: "dist_floor d1 = Some a" "1 \<le> a" "a \<le> b"
      by auto
    define m1 where "m1 = 2 * a * r"
    from Some False a(1) have mp1: "metersPerPixel tm cam V (dist_floor d1) = Some m1"
      by (auto simp: metersPerPixel_def Let_def r_def m1_def split: if_splits option.splits)
    show ?thesis
    proof (cases "0 < r")
      case True
      have m1pos: "0 < m1" using True a(2) by (simp add: m1_def)
      have m12: "m1 \<le> m2" using True a(3) by (simp add: m1_def m2)
      have nq: "0 < S \<Longrightarrow> WORLD / (256 * (m1 * S)) < 2 ^ 1024"
      proof -
        assume S: "0 < S"
        have W: "0 < WORLD" using WORLD_ge_1 by linarith
        define c where "c = 2 * r * S"
        have cpos: "0 < c" using True S by (simp add: c_def)
        have ac: "c \<le> a * c" using cpos a(2) by simp
        have "WORLD / (256 * (m1 * S)) = WORLD / (256 * (a * c))"
          by (simp add: m1_def c_def)
        also have "\<dots> \<le> WORLD / (256 * c)"
          using cpos ac W by (simp add: frac_le)
        also have "\<dots> = nearQuotient cam V S"
          by (simp add: nearQuotient_def c_def r_def)
        finally show ?thesis using near by linarith
      qed
      show ?thesis
        using zoom_for_mpp_mono [OF mt m1pos m12 nq] Some mp1
        by (simp add: desiredZoomForDistance_def)
    next
      case False
      have "0 \<le> b" using a by linarith
      with False have "m2 \<le> 0"
        by (simp add: m2 not_less mult_nonneg_nonpos)
      then have "zoom_for_mpp S minZoom topZoom m2 = minZoom"
        by (simp add: zoom_for_mpp_def)
      then show ?thesis
        using desiredZoom_range [OF mt, of tm cam V S d1] Some
        by (simp add: desiredZoomForDistance_def)
    qed
  qed
qed

lemma ex_near: "nearQuotient ex_cam 720 (zoomErrorScale None) < 2 ^ 1024"
proof -
  have nq: "nearQuotient ex_cam 720 (zoomErrorScale None) = pi * (6378137 * 720 * sqrt 3 / 256)"
    by (simp add: nearQuotient_def ex_cam_def zoomErrorScale_def tan_30 WORLD_def)
  have "sqrt 3 \<le> sqrt 4" by (simp only: real_sqrt_le_iff)
  then have s: "sqrt 3 \<le> 2" by simp
  have "pi * (6378137 * 720 * sqrt 3 / 256) \<le> 4 * (6378137 * 720 * 2 / 256)"
    using pi_less_4 s by (intro mult_mono) simp_all
  also have "\<dots> < 2 ^ 1024" by simp
  finally show ?thesis using nq by simp
qed

text \<open>
  Claim C5. With \<open>minZoom \<le> topZoom\<close> (as \<open>update\<close> computes them), the zoom
  \<open>desiredZoomForDistance\<close> returns lies in \<open>[minZoom, topZoom]\<close> for every distance,
  finite or not. For a fixed camera, viewport height and error scale it does not rise
  when the distance grows: \<open>d1 \<le> d2\<close> gives a zoom at \<open>d2\<close> that is at most the zoom
  at \<open>d1\<close>. The third hypothesis keeps the arithmetic inside the range of a double: the
  quotient \<open>WORLD / (256 * metersPerPixel)\<close> at one metre does not overflow, which
  holds for every viewport height below some \<open>10^290\<close> pixels.
\<close>

theorem desiredZoomForDistance_antitone:
  assumes "minZoom \<le> topZoom" and "js_le d1 d2"
    and "nearQuotient cam viewportH errScale < 2 ^ 1024"
  shows "desiredZoomForDistance toMeters cam viewportH errScale minZoom topZoom d2
           \<le> desiredZoomForDistance toMeters cam viewportH errScale minZoom topZoom d1
         \<and> minZoom \<le> desiredZoomForDistance toMeters cam viewportH errScale minZoom topZoom d
         \<and> desiredZoomForDistance toMeters cam viewportH errScale minZoom topZoom d \<le> topZoom"
  using desiredZoom_mono [OF assms] desiredZoom_range [OF assms(1)] by simp

theorem desiredZoomForDistance_antitone_witness:
  "(5::int) \<le> 18 \<and> js_le (Fin 1000) (Fin 5000)
   \<and> nearQuotient ex_cam 720 (zoomErrorScale None) < 2 ^ 1024
   \<and> desiredZoomForDistance (\<lambda>v. v) ex_cam 720 (zoomErrorScale None) 5 18 (Fin 5000)
       \<le> desiredZoomForDistance (\<lambda>v. v) ex_cam 720 (zoomErrorScale None) 5 18 (Fin 1000)
   \<and> 5 \<le> desiredZoomForDistance (\<lambda>v. v) ex_cam 720 (zoomErrorScale None) 5 18 PosInf
   \<and> desiredZoomForDistance (\<lambda>v. v) ex_cam 720 (zoomErrorScale None) 5 18 PosInf \<le> 18"
proof -
  have h1: "(5::int) \<le> 18" by simp
  have h2: "js_le (Fin 1000) (Fin 5000)" by simp
  from desiredZoomForDistance_antitone [OF h1 h2 ex_near, of "\<lambda>v. v" PosInf] h2 ex_near
  show ?thesis by simp
qed

subsection \<open>The gates of \<open>update\<close>\<close>

lemma planar_gt_iff:
  "0 \<le> m \<Longrightarrow> sqrt (dx * dx + dz * dz) > m \<longleftrightarrow> dx * dx + dz * dz > m * m"
  by (metis real_sqrt_less_iff real_sqrt_abs2 abs_of_nonneg)

lemma gates_too_high:
  "g_enabled i \<Longrightarrow> g_camera i = Some c \<Longrightarrow> too_high i c \<Longrightarrow>
     update_gates i w = Inr (clear_if_any (g_tiles i) w, Returned)"
  by (simp add: update_gates_def)

lemma gates_open:
  assumes "g_enabled i" "g_camera i = Some c" "\<not> too_high i c"
  shows "update_gates i w =
     (let a1 = fst (debounce_gate i c (cur w)); held = snd (debounce_gate i c (cur w))
      in if held \<or> g_now i - lastUpdate a1 < updateMs i
         then Inr (set_atlas (this_state w) a1 w, Returned)
         else Inr (set_atlas (this_state w) (a1\<lparr>lastUpdate := g_now i\<rparr>) w,
                   if g_camMerc i = None then Returned else Proceed))"
  using assms by (simp add: update_gates_def Let_def split_beta)

lemma debounce_keeps [simp]:
  "byZoom (fst (debounce_gate i c a)) = byZoom a"
  "pendingCellSizeByZoom (fst (debounce_gate i c a)) = pendingCellSizeByZoom a"
  "lastUpdate (fst (debounce_gate i c a)) = lastUpdate a"
  by (simp_all add: debounce_gate_def Let_def split: option.splits)

text \<open>
  Claim C6, as stated, fails: with the thresholds 15 m, 20 m and 1.5 degrees and a
  debounce interval of 150 ms, the frame that sees a 10 m translation (no rotation, no
  height change, 300 ms after the last update) goes on to recompute, and the frame that
  sees a 20 m translation returns at the debounce gate without recomputing.
\<close>

theorem debounce_example_counterexample:
  "map_sum id snd (update_gates (ex_gate 10 1000 (Some (0, 0)) None) ex_seen) = Inr Proceed
   \<and> map_sum id snd (update_gates (ex_gate 20 1000 (Some (0, 0)) None) ex_seen) = Inr Returned"
  by (simp add: update_gates_def too_high_def ex_gate_def ex_seen_def Let_def debounce_gate_def
      threshold_def cur_def set_atlas_def view_moved_def view_angle_def ex_view_def updateMs_def
      planar_gt_iff init_world_def empty_atlas_def)

text \<open>
  Claim C6, amended. Take the thresholds 15 m, 20 m and 1.5 degrees, a positive debounce
  interval \<open>ms\<close>, a frame that passes the enable and height switches with a usable
  mercator position, and a camera whose height changed by at most 20 m and whose
  orientation turned by at most 1.5 degrees since the last frame. A planar translation
  of at most 15 m (so one of 10 m) leaves the stamp \<open>lastMoveAt\<close> as it was and
  does not hold the frame back: the frame recomputes exactly when no move beyond a
  threshold was stamped within the last \<open>ms\<close> and the throttle interval since the
  last update has passed. A planar translation of more than 15 m (so one of 20 m) stamps
  \<open>lastMoveAt\<close> with the current time and the frame returns without recomputing and
  without touching the throttle stamp. Either frame records the camera as the last view.
\<close>

theorem debounce_example:
  assumes run: "g_enabled i" "g_camera i = Some c" "\<not> too_high i c" "g_camMerc i \<noteq> None"
    and cfg: "g_lodDebounceMs i = Some ms" "0 < ms" "g_lodMoveMeters i = Some 15"
      "g_lodHeightMeters i = Some 20" "g_lodAngleDeg i = Some (3 / 2)"
    and seen: "lastView (cur w) = Some l"
    and still: "\<bar>g_toMeters i (vy c - vy l)\<bar> \<le> 20" "view_angle c l \<le> 3 / 2"
  shows "(sqrt (g_toMeters i (vx c - vx l) * g_toMeters i (vx c - vx l)
               + g_toMeters i (vz c - vz l) * g_toMeters i (vz c - vz l)) \<le> 15
          \<longrightarrow> (map_sum id snd (update_gates i w) = Inr Proceed
                 \<longleftrightarrow> (case lastMoveAt (cur w) of Some t \<Rightarrow> ms \<le> g_now i - t | None \<Rightarrow> True)
                     \<and> updateMs i \<le> g_now i - lastUpdate (cur w))
              \<and> (\<exists>w' r. update_gates i w = Inr (w', r)
                    \<and> lastMoveAt (cur w') = lastMoveAt (cur w)
                    \<and> lastView (cur w') = Some c))
       \<and> (sqrt (g_toMeters i (vx c - vx l) * g_toMeters i (vx c - vx l)
               + g_toMeters i (vz c - vz l) * g_toMeters i (vz c - vz l)) > 15
          \<longrightarrow> map_sum id snd (update_gates i w) = Inr Returned
              \<and> (\<exists>w'. update_gates i w = Inr (w', Returned)
                    \<and> lastMoveAt (cur w') = Some (g_now i)
                    \<and> lastView (cur w') = Some c
                    \<and> lastUpdate (cur w') = lastUpdate (cur w)))"
  using cfg seen still
  by (auto simp: gates_open [OF run(1-3)] run(4) debounce_gate_def threshold_def Let_def
      view_moved_def max_def cur_def set_atlas_def split: option.splits)

theorem debounce_example_witness:
  "map_sum id snd (update_gates (ex_gate 12 2000 (Some (0, 0)) None) ex_seen) = Inr Proceed
   \<and> map_sum id snd (update_gates (ex_gate 18 2000 (Some (0, 0)) None) ex_seen) = Inr Returned
   \<and> map_sum id snd (update_gates (ex_gate 12 900 (Some (0, 0)) None) ex_seen) \<noteq> Inr Proceed
   \<and> (\<exists>w1. update_gates (ex_gate 18 2000 (Some (0, 0)) None) ex_seen = Inr (w1, Returned)
          \<and> lastMoveAt (cur w1) = Some 2000
          \<and> map_sum id snd (update_gates (ex_gate 18 2100 (Some (0, 0)) None) w1) \<noteq> Inr Proceed
          \<and> map_sum id snd (update_gates (ex_gate 18 2300 (Some (0, 0)) None) w1) = Inr Proceed)"
proof -
  have seen: "lastView (cur ex_seen) = Some (ex_view 0)" "lastMoveAt (cur ex_seen) = None"
    "lastUpdate (cur ex_seen) = 700"
    by (simp_all add: ex_seen_def cur_def set_atlas_def init_world_def empty_atlas_def)
  have ang: "view_angle (ex_view x) (ex_view y) = 0" for x y
    by (simp add: view_angle_def ex_view_def)
  have r: "g_enabled (ex_gate x t (Some (0, 0)) None)"
    "g_camera (ex_gate x t (Some (0, 0)) None) = Some (ex_view x)"
    "\<not> too_high (ex_gate x t (Some (0, 0)) None) (ex_view x)"
    "g_camMerc (ex_gate x t (Some (0, 0)) None) \<noteq> None"
    "g_lodDebounceMs (ex_gate x t (Some (0, 0)) None) = Some 150"
    "g_lodMoveMeters (ex_gate x t (Some (0, 0)) None) = Some 15"
    "g_lodHeightMeters (ex_gate x t (Some (0, 0)) None) = Some 20"
    "g_lodAngleDeg (ex_gate x t (Some (0, 0)) None) = Some (3 / 2)" for x t
    by (simp_all add: ex_gate_def too_high_def)
  have s: "\<bar>g_toMeters (ex_gate x t (Some (0, 0)) None) (vy (ex_view x) - vy (ex_view y))\<bar> \<le> 20"
    for x y t
    by (simp add: ex_gate_def ex_view_def)
  have p: "sqrt (g_toMeters (ex_gate x t (Some (0, 0)) None) (vx (ex_view x) - vx (ex_view y))
                 * g_toMeters (ex_gate x t (Some (0, 0)) None) (vx (ex_view x) - vx (ex_view y))
               + g_toMeters (ex_gate x t (Some (0, 0)) None) (vz (ex_view x) - vz (ex_view y))
                 * g_toMeters (ex_gate x t (Some (0, 0)) None) (vz (ex_view x) - vz (ex_view y)))
           = \<bar>x - y\<bar>" for x y t
    by (simp add: ex_gate_def ex_view_def)
  have u: "updateMs (ex_gate x t (Some (0, 0)) None) = 250"
    "g_now (ex_gate x t (Some (0, 0)) None) = t"
    "g_toMeters (ex_gate x t (Some (0, 0)) None) 0 = 0" for x t
    by (simp_all add: updateMs_def ex_gate_def)
  have a: "map_sum id snd (update_gates (ex_gate 12 2000 (Some (0, 0)) None) ex_seen) = Inr Proceed"
    using debounce_example [where i = "ex_gate 12 2000 (Some (0, 0)) None" and c = "ex_view 12"
                    and w = ex_seen and l = "ex_view 0" and ms = 150]
    by (simp add: r ang s p u seen)
  have b: "map_sum id snd (update_gates (ex_gate 12 900 (Some (0, 0)) None) ex_seen) \<noteq> Inr Proceed"
    using debounce_example [where i = "ex_gate 12 900 (Some (0, 0)) None" and c = "ex_view 12"
                    and w = ex_seen and l = "ex_view 0" and ms = 150]
    by (simp add: r ang s p u seen)
  from debounce_example [where i = "ex_gate 18 2000 (Some (0, 0)) None" and c = "ex_view 18"
                    and w = ex_seen and l = "ex_view 0" and ms = 150]
  obtain w1 where w1: "update_gates (ex_gate 18 2000 (Some (0, 0)) None) ex_seen = Inr (w1, Returned)"
      "lastMoveAt (cur w1) = Some 2000" "lastView (cur w1) = Some (ex_view 18)"
      "lastUpdate (cur w1) = 700"
    by (auto simp: r ang s p u seen)
  have c: "map_sum id snd (update_gates (ex_gate 18 2100 (Some (0, 0)) None) w1) \<noteq> Inr Proceed"
    using debounce_example [where i = "ex_gate 18 2100 (Some (0, 0)) None" and c = "ex_view 18"
                    and w = w1 and l = "ex_view 18" and ms = 150]
    by (simp add: r ang s p u w1)
  have d: "map_sum id snd (update_gates (ex_gate 18 2300 (Some (0, 0)) None) w1) = Inr Proceed"
    using debounce_example [where i = "ex_gate 18 2300 (Some (0, 0)) None" and c = "ex_view 18"
                    and w = w1 and l = "ex_view 18" and ms = 150]
    by (simp add: r ang s p u w1)
  from w1(1) have e: "map_sum id snd (update_gates (ex_gate 18 2000 (Some (0, 0)) None) ex_seen)
                        = Inr Returned"
    by simp
  from a b c d e w1 show ?thesis by blast
qed

text \<open>
  Claim C9, as stated, fails. A frame whose camera position has no mercator projection but
  whose camera is above the enable height clears the atlas: the tile that was pinned is
  unpinned and the zoom state is gone. And a frame with a usable mercator position but no
  ground height at all is not stopped: it goes on to the level-of-detail work.
\<close>

theorem invalid_input_counterexample:
  "g_camMerc (ex_gate 0 1000 None (Some 100)) = None
   \<and> update_gates (ex_gate 0 1000 None (Some 100)) ex_world_a = Inr (clear True ex_world_a, Returned)
   \<and> pins ex_world_a (ex_key 14 100 50) = 1
   \<and> pins (clear True ex_world_a) (ex_key 14 100 50) = 0
   \<and> map fst (byZoom (cur ex_world_a)) = [14]
   \<and> byZoom (cur (clear True ex_world_a)) = []
   \<and> g_elevAtMercator (ex_gate 0 1000 (Some (0, 0)) None) = None
   \<and> g_heightAtWorld (ex_gate 0 1000 (Some (0, 0)) None) = None
   \<and> map_sum id snd (update_gates (ex_gate 0 1000 (Some (0, 0)) None) ex_world_a) = Inr Proceed"
proof -
  have a: "pins ex_world_a (ex_key 14 100 50) = 1" "map fst (byZoom (cur ex_world_a)) = [14]"
    "pins (clear True ex_world_a) (ex_key 14 100 50) = 0"
    "byZoom (cur (clear True ex_world_a)) = []"
    by code_simp+
  have b: "lastView (cur ex_world_a) = None" "lastMoveAt (cur ex_world_a) = None"
    "lastUpdate (cur ex_world_a) = 0"
    by code_simp+
  from a(2) have ne: "byZoom (cur ex_world_a) \<noteq> []" by auto
  have hi: "too_high (ex_gate 0 1000 None (Some 100)) (ex_view 0)"
    by (simp add: too_high_def cameraHeight_def ex_gate_def ex_view_def)
  have u1: "update_gates (ex_gate 0 1000 None (Some 100)) ex_world_a
              = Inr (clear True ex_world_a, Returned)"
    using gates_too_high [OF _ _ hi, of ex_world_a] ne
    by (simp add: ex_gate_def clear_if_any_def)
  have u2: "map_sum id snd (update_gates (ex_gate 0 1000 (Some (0, 0)) None) ex_world_a)
              = Inr Proceed"
    by (simp add: gates_open [where c = "ex_view 0"] too_high_def Let_def debounce_gate_def b
        threshold_def updateMs_def ex_gate_def)
  show ?thesis using a u1 u2 by (simp add: ex_gate_def)
qed

text \<open>
  Claim C9, amended. When the shader patch is enabled, a camera is given, the camera is not
  above the enable height and its position has no finite mercator projection (no
  projection object, no \<open>threeToMercator\<close>, a null or a non-finite result), \<open>update\<close>
  returns before any level-of-detail work and without an exception; the zoom states, the
  pending cell sizes, the pins, the fetches in flight and the render targets are as they
  were, in the current atlas object and in every other one. Only the debounce and
  throttle stamps of the current atlas may have changed.
\<close>

theorem invalid_mercator_returns:
  assumes "g_enabled i" "g_camera i = Some c" "\<not> too_high i c" "g_camMerc i = None"
  shows "\<exists>w'. update_gates i w = Inr (w', Returned)
           \<and> byZoom (cur w') = byZoom (cur w)
           \<and> pendingCellSizeByZoom (cur w') = pendingCellSizeByZoom (cur w)
           \<and> this_state w' = this_state w \<and> pins w' = pins w
           \<and> inflight w' = inflight w \<and> nextFetch w' = nextFetch w
           \<and> gpu w' = gpu w \<and> nextRt w' = nextRt w
           \<and> (\<forall>a. a \<noteq> this_state w \<longrightarrow> heap w' a = heap w a)"
  using assms
  by (simp add: gates_open Let_def set_atlas_def cur_def)

theorem invalid_mercator_returns_witness:
  "update_gates (ex_gate 0 1000 None (Some 500)) ex_world_a
     = Inr (set_atlas 0 ((cur ex_world_a)\<lparr>lastView := Some (ex_view 0), lastUpdate := 1000\<rparr>)
              ex_world_a, Returned)
   \<and> byZoom (cur (set_atlas 0 ((cur ex_world_a)\<lparr>lastView := Some (ex_view 0), lastUpdate := 1000\<rparr>)
              ex_world_a)) = byZoom (cur ex_world_a)
   \<and> pins (set_atlas 0 ((cur ex_world_a)\<lparr>lastView := Some (ex_view 0), lastUpdate := 1000\<rparr>)
              ex_world_a) (ex_key 14 100 50) = 1"
proof -
  have r: "g_enabled (ex_gate 0 1000 None (Some 500))"
    "g_camera (ex_gate 0 1000 None (Some 500)) = Some (ex_view 0)"
    "\<not> too_high (ex_gate 0 1000 None (Some 500)) (ex_view 0)"
    "g_camMerc (ex_gate 0 1000 None (Some 500)) = None"
    by (simp_all add: too_high_def cameraHeight_def ex_gate_def ex_view_def)
  have b: "lastView (cur ex_world_a) = None" "lastMoveAt (cur ex_world_a) = None"
    "lastUpdate (cur ex_world_a) = 0" "this_state ex_world_a = 0"
    "pins ex_world_a (ex_key 14 100 50) = 1"
    by code_simp+
  have u: "update_gates (ex_gate 0 1000 None (Some 500)) ex_world_a
     = Inr (set_atlas 0 ((cur ex_world_a)\<lparr>lastView := Some (ex_view 0), lastUpdate := 1000\<rparr>)
              ex_world_a, Returned)"
    by (simp add: gates_open [OF r(1-3)] Let_def debounce_gate_def b
        threshold_def updateMs_def) (simp add: ex_gate_def)
  from invalid_mercator_returns [OF r, of ex_world_a] u b show ?thesis
    by auto
qed

subsection \<open>Pins and unpins balance\<close>

lemma set_js_set_aux: "set (foldl js_set_add s xs) = set s \<union> set xs"
  by (induction xs arbitrary: s) (auto simp: js_set_add_def)

lemma distinct_js_set_aux: "distinct s \<Longrightarrow> distinct (foldl js_set_add s xs)"
  by (induction xs arbitrary: s) (auto simp: js_set_add_def)

lemma set_js_set [simp]: "set (js_set xs) = set xs"
  by (simp add: js_set_def set_js_set_aux)

lemma distinct_js_set [simp]: "distinct (js_set xs)"
  by (simp add: js_set_def distinct_js_set_aux)

lemma fold_bump:
  "distinct ks \<Longrightarrow>
     fold (\<lambda>k q. if P k then q(k := q k + c) else q) ks p k'
       = p k' + (if k' \<in> set ks \<and> P k' then c else (0::int))"
  by (induction ks arbitrary: p) auto

lemma fold_drop:
  "distinct ks \<Longrightarrow>
     fold (\<lambda>k q. if P k then q(k := q k - c) else q) ks p k'
       = p k' - (if k' \<in> set ks \<and> P k' then c else (0::int))"
  by (induction ks arbitrary: p) auto

lemma unpin_keys_at:
  "distinct ks \<Longrightarrow> unpin_keys True ks p k = p k - (if k \<in> set ks then 1 else 0)"
  using fold_drop [of ks "\<lambda>k. True" 1 p k]
  by (simp add: unpin_keys_def)

lemma reconcile_pins_at:
  assumes "distinct active" "distinct desired"
  shows "reconcile_pins True active desired p k
           = p k + (if k \<in> set desired \<and> k \<notin> set active then 1 else 0)
                 - (if k \<in> set active \<and> k \<notin> set desired then 1 else 0)"
  by (simp add: reconcile_pins_def fold_bump [OF assms(2)] fold_drop [OF assms(1)])

lemma keys_at_Cons:
  "keys_at ((a, b) # al) z = (if z = a then b else keys_at al z)"
  by (simp add: keys_at_def)

lemma holding_Cons:
  "int (holding k ((a, b) # al)) = int (holding k al) + (if k \<in> set b then 1 else 0)"
  by (simp add: holding_def)

lemma keys_at_fresh: "z \<notin> fst ` set al \<Longrightarrow> keys_at al z = []"
proof -
  assume "z \<notin> fst ` set al"
  then have "map_of al z = None" by (simp add: map_of_eq_None_iff)
  then show ?thesis by (simp add: keys_at_def)
qed

lemma holding_delete:
  "distinct (map fst al) \<Longrightarrow>
     int (holding k (AList.delete z al))
       = int (holding k al) - (if k \<in> set (keys_at al z) then 1 else 0)"
proof (induction al)
  case Nil
  then show ?case by (simp add: holding_def keys_at_def)
next
  case (Cons p al)
  obtain a b where p: "p = (a, b)" by (cases p)
  show ?case
  proof (cases "a = z")
    case True
    with Cons.prems p have "z \<notin> fst ` set al" by auto
    then show ?thesis using True p
      by (simp add: keys_at_Cons holding_Cons)
  next
    case False
    with Cons p show ?thesis
      by (simp add: keys_at_Cons holding_Cons)
  qed
qed

lemma holding_update:
  "distinct (map fst al) \<Longrightarrow>
     int (holding k (AList.update z ks al))
       = int (holding k al) - (if k \<in> set (keys_at al z) then 1 else 0)
           + (if k \<in> set ks then 1 else 0)"
proof (induction al)
  case Nil
  then show ?case by (simp add: holding_def keys_at_def)
next
  case (Cons p al)
  obtain a b where p: "p = (a, b)" by (cases p)
  show ?case
  proof (cases "a = z")
    case True
    then show ?thesis using p
      by (simp add: keys_at_Cons holding_Cons)
  next
    case False
    with Cons p show ?thesis
      by (simp add: keys_at_Cons holding_Cons)
  qed
qed

lemma akeys_update:
  "akeys (a\<lparr>byZoom := AList.update z st (byZoom a)\<rparr>) = AList.update z (activeKeys st) (akeys a)"
proof -
  have "map (\<lambda>zs. (fst zs, activeKeys (snd zs))) (AList.update z st al)
          = AList.update z (activeKeys st) (map (\<lambda>zs. (fst zs, activeKeys (snd zs))) al)" for al
    by (induction al) auto
  then show ?thesis by (simp add: akeys_def)
qed

lemma akeys_delete:
  "akeys (a\<lparr>byZoom := AList.delete z (byZoom a)\<rparr>) = AList.delete z (akeys a)"
proof -
  have "map (\<lambda>zs. (fst zs, activeKeys (snd zs))) (AList.delete z al)
          = AList.delete z (map (\<lambda>zs. (fst zs, activeKeys (snd zs))) al)" for al
    by (induction al) auto
  then show ?thesis by (simp add: akeys_def)
qed

lemma map_of_akeys: "map_of (akeys a) z = map_option activeKeys (map_of (byZoom a) z)"
proof -
  have "map_of (map (\<lambda>zs. (fst zs, activeKeys (snd zs))) al) z
          = map_option activeKeys (map_of al z)" for al
    by (induction al) auto
  then show ?thesis by (simp add: akeys_def)
qed

lemma keys_at_akeys:
  "keys_at (akeys a) z = (case map_of (byZoom a) z of None \<Rightarrow> [] | Some st \<Rightarrow> activeKeys st)"
  by (simp add: keys_at_def map_of_akeys split: option.splits)

lemma fst_akeys [simp]: "map fst (akeys a) = map fst (byZoom a)"
  by (simp add: akeys_def)

lemma balanced_keys_at: "balanced al p \<Longrightarrow> distinct (keys_at al z)"
proof -
  assume b: "balanced al p"
  show ?thesis
  proof (cases "map_of al z")
    case None
    then show ?thesis by (simp add: keys_at_def)
  next
    case (Some ks)
    then have "(z, ks) \<in> set al" by (rule map_of_SomeD)
    with b have "distinct ks" by (auto simp: balanced_def list_all_iff)
    with Some show ?thesis by (simp add: keys_at_def)
  qed
qed

lemma list_all_delete: "list_all P al \<Longrightarrow> list_all P (AList.delete z al)"
  by (induction al) auto

lemma list_all_update: "list_all P al \<Longrightarrow> P (z, v) \<Longrightarrow> list_all P (AList.update z v al)"
  by (induction al) auto

lemma balanced_delete:
  assumes "balanced al p"
  shows "balanced (AList.delete z al) (unpin_keys True (keys_at al z) p)"
  using assms balanced_keys_at [OF assms, of z]
  by (simp add: balanced_def distinct_delete list_all_delete holding_delete unpin_keys_at)

lemma balanced_update:
  assumes "balanced al p" "distinct ks"
  shows "balanced (AList.update z ks al) (reconcile_pins True (keys_at al z) ks p)"
  using assms balanced_keys_at [OF assms(1), of z]
  by (simp add: balanced_def distinct_update list_all_update holding_update reconcile_pins_at)

lemma balanced_empty: "balanced [] (\<lambda>k. 0)"
  by (simp add: balanced_def holding_def)

lemma set_atlas_simps [simp]:
  "this_state (set_atlas a v w) = this_state w"
  "pins (set_atlas a v w) = pins w"
  "inflight (set_atlas a v w) = inflight w"
  "nextFetch (set_atlas a v w) = nextFetch w"
  "gpu (set_atlas a v w) = gpu w"
  "nextRt (set_atlas a v w) = nextRt w"
  "heap (set_atlas a v w) b = (if b = a then v else heap w b)"
  by (simp_all add: set_atlas_def)

lemma cur_set_atlas [simp]:
  "cur (set_atlas a v w) = (if a = this_state w then v else cur w)"
  by (simp add: cur_def)

lemma put_zstate_simps [simp]:
  "this_state (put_zstate a z st w) = this_state w"
  "pins (put_zstate a z st w) = pins w"
  "inflight (put_zstate a z st w) = inflight w"
  "nextFetch (put_zstate a z st w) = nextFetch w"
  "gpu (put_zstate a z st w) = gpu w"
  "nextRt (put_zstate a z st w) = nextRt w"
  by (simp_all add: put_zstate_def)

lemma cur_put_zstate [simp]:
  "cur (put_zstate a z st w) =
     (if a = this_state w then (cur w)\<lparr>byZoom := AList.update z st (byZoom (cur w))\<rparr>
      else cur w)"
  by (simp add: put_zstate_def cur_def)

lemma cur_upd [simp]:
  "cur (w\<lparr>pins := p\<rparr>) = cur w" "cur (w\<lparr>gpu := g\<rparr>) = cur w" "cur (w\<lparr>nextRt := n\<rparr>) = cur w"
  "cur (w\<lparr>inflight := fl\<rparr>) = cur w" "cur (w\<lparr>nextFetch := nf\<rparr>) = cur w"
  by (simp_all add: cur_def)

lemma akeys_upd [simp]:
  "akeys (a\<lparr>pendingCellSizeByZoom := x\<rparr>) = akeys a"
  "akeys (a\<lparr>lastView := v\<rparr>) = akeys a"
  "akeys (a\<lparr>lastMoveAt := m\<rparr>) = akeys a"
  "akeys (a\<lparr>lastUpdate := u\<rparr>) = akeys a"
  by (simp_all add: akeys_def)

lemma drop_zoom_effect:
  "this_state (drop_zoom t z w) = this_state w"
  "akeys (cur (drop_zoom t z w)) = AList.delete z (akeys (cur w))"
  "pins (drop_zoom t z w) = unpin_keys t (keys_at (akeys (cur w)) z) (pins w)"
proof -
  show "this_state (drop_zoom t z w) = this_state w"
    by (simp add: drop_zoom_def split: option.splits)
  show "akeys (cur (drop_zoom t z w)) = AList.delete z (akeys (cur w))"
  proof (cases "map_of (byZoom (cur w)) z")
    case None
    then have "z \<notin> fst ` set (akeys (cur w))"
      by (simp add: map_of_eq_None_iff akeys_def image_image)
    with None show ?thesis by (simp add: drop_zoom_def)
  next
    case (Some st)
    then show ?thesis by (simp add: drop_zoom_def akeys_delete)
  qed
  show "pins (drop_zoom t z w) = unpin_keys t (keys_at (akeys (cur w)) z) (pins w)"
    by (simp add: drop_zoom_def keys_at_akeys unpin_keys_def split: option.splits)
qed

lemma pin_inv_drop_zoom: "pin_inv w \<Longrightarrow> pin_inv (drop_zoom True z w)"
  by (simp add: pin_inv_def drop_zoom_effect balanced_delete)

lemma ensure_effect:
  "this_state (fst (ensureZoomState ops cfg z g c w)) = this_state w"
  "pins (fst (ensureZoomState ops cfg z g c w)) = pins w"
  "akeys (cur (fst (ensureZoomState ops cfg z g c w)))
     = AList.update z (keys_at (akeys (cur w)) z) (akeys (cur w))"
  "activeKeys (snd (ensureZoomState ops cfg z g c w)) = keys_at (akeys (cur w)) z"
proof -
  show "this_state (fst (ensureZoomState ops cfg z g c w)) = this_state w"
    by (simp add: ensureZoomState_def Let_def split: option.splits)
  show "pins (fst (ensureZoomState ops cfg z g c w)) = pins w"
    by (simp add: ensureZoomState_def Let_def split: option.splits)
  show "activeKeys (snd (ensureZoomState ops cfg z g c w)) = keys_at (akeys (cur w)) z"
    by (simp add: ensureZoomState_def Let_def keys_at_akeys split: option.splits)
  show "akeys (cur (fst (ensureZoomState ops cfg z g c w)))
     = AList.update z (keys_at (akeys (cur w)) z) (akeys (cur w))"
  proof (cases "map_of (byZoom (cur w)) z")
    case None
    then show ?thesis
      by (simp add: ensureZoomState_def Let_def keys_at_akeys akeys_update)
  next
    case (Some s)
    then have "map_of (akeys (cur w)) z = Some (activeKeys s)"
      by (simp add: map_of_akeys)
    then have "AList.update z (activeKeys s) (akeys (cur w)) = akeys (cur w)"
      by (rule update_triv)
    with Some show ?thesis
      by (simp add: ensureZoomState_def Let_def keys_at_akeys akeys_update)
  qed
qed

lemma install_effect:
  "this_state (fst (install_desired t ops cfg z g d w)) = this_state w"
  "pins (fst (install_desired t ops cfg z g d w)) = reconcile_pins t (keys_at (akeys (cur w)) z) d (pins w)"
  "akeys (cur (fst (install_desired t ops cfg z g d w)))
     = AList.update z (keys_at (akeys (cur w)) z) (akeys (cur w))"
  "activeKeys (snd (install_desired t ops cfg z g d w)) = d"
  by (simp_all add: install_desired_def Let_def split_beta ensure_effect)

lemma activeKeys_clear_cell [simp]: "activeKeys (clear_cell i st) = activeKeys st"
  by (simp add: clear_cell_def Let_def)

lemma activeKeys_bind_cell [simp]: "activeKeys (bind_cell i t st) = activeKeys st"
  by (simp add: bind_cell_def Let_def)

lemma activeKeys_drop_texture [simp]: "activeKeys (drop_texture d k st) = activeKeys st"
  by (simp add: drop_texture_def Let_def split: option.splits)

lemma activeKeys_drop_textures [simp]: "activeKeys (drop_textures d st) = activeKeys st"
proof -
  have "activeKeys (fold (drop_texture d) ks st) = activeKeys st" for ks
    by (induction ks arbitrary: st) simp_all
  then show ?thesis by (simp add: drop_textures_def)
qed

lemma activeKeys_issue_fetch [simp]:
  "activeKeys (ist (issue_fetch t a z c acc)) = activeKeys (ist acc)"
  by (simp add: issue_fetch_def)

lemma activeKeys_issue_trap_one [simp]:
  "activeKeys (ist (issue_trap_one t m a z d c acc)) = activeKeys (ist acc)"
  by (simp add: issue_trap_one_def Let_def split: option.splits)

lemma activeKeys_issue_view_one [simp]:
  "activeKeys (ist (issue_view_one t m a z ic acc)) = activeKeys (ist acc)"
  by (simp add: issue_view_one_def Let_def split: option.splits)

lemma activeKeys_fold_trap [simp]:
  "activeKeys (ist (fold (issue_trap_one t m a z d) cs acc)) = activeKeys (ist acc)"
  by (induction cs arbitrary: acc) simp_all

lemma activeKeys_fold_view [simp]:
  "activeKeys (ist (fold (issue_view_one t m a z) cs acc)) = activeKeys (ist acc)"
  by (induction cs arbitrary: acc) simp_all

lemma finish_effect:
  assumes "\<And>acc. activeKeys (ist (loop acc)) = activeKeys (ist acc)"
  shows "this_state (finish_zoom cfg z d loop st w) = this_state w"
    "pins (finish_zoom cfg z d loop st w) = pins w"
    "akeys (cur (finish_zoom cfg z d loop st w)) = AList.update z (activeKeys st) (akeys (cur w))"
  by (simp_all add: finish_zoom_def Let_def split_beta render_if_dirty_def akeys_update assms)

lemma pin_inv_step:
  assumes inv: "pin_inv w"
    and loop: "\<And>acc. activeKeys (ist (loop acc)) = activeKeys (ist acc)"
    and d: "distinct d"
  shows "pin_inv (finish_zoom cfg z d loop (snd (install_desired True ops cfg z g d w))
                    (fst (install_desired True ops cfg z g d w)))"
  using balanced_update [OF inv [unfolded pin_inv_def] d, of z]
  by (simp add: pin_inv_def finish_effect [OF loop] install_effect)

lemma pin_inv_trap_zoom_step: "pin_inv w \<Longrightarrow> pin_inv (trap_zoom_step True ops cfg z c cs w)"
  by (auto simp: trap_zoom_step_def Let_def split_beta pin_inv_drop_zoom
      intro!: pin_inv_step split: option.splits)

lemma pin_inv_view_zoom_step: "pin_inv w \<Longrightarrow> pin_inv (view_zoom_step True ops cfg z m c cs w)"
  by (auto simp: view_zoom_step_def Let_def split_beta pin_inv_drop_zoom
      intro!: pin_inv_step split: option.splits)

lemma fold_pin_inv:
  assumes "\<And>x v. pin_inv v \<Longrightarrow> pin_inv (f x v)" "pin_inv w"
  shows "pin_inv (fold f xs w)"
  using assms(2) by (induction xs arbitrary: w) (simp_all add: assms(1))

lemma pin_inv_trap_composite:
  assumes "pin_inv w" "tf_tiles fr"
  shows "pin_inv (trap_composite ops cfg fr w)"
proof -
  let ?levels = "zoom_levels (tf_topZoom fr) (tf_minZoom fr)"
  let ?w1 = "fold (\<lambda>z v. if z \<in> set ?levels then v else drop_zoom (tf_tiles fr) z v)
                 (map fst (byZoom (cur w))) w"
  have "pin_inv ?w1"
    by (rule fold_pin_inv) (simp_all add: assms pin_inv_drop_zoom)
  then have "pin_inv (fold (\<lambda>z v. trap_zoom_step (tf_tiles fr) ops cfg z (tf_center fr z)
                        (tiles_at (tf_tilesByZoom fr) z) v) ?levels ?w1)"
    by (rule fold_pin_inv [rotated]) (simp add: assms pin_inv_trap_zoom_step)
  then show ?thesis by (simp add: trap_composite_def Let_def)
qed

lemma pin_inv_view_round:
  "pin_inv w \<Longrightarrow> vf_tiles fr \<Longrightarrow> view_zoom_round ops cfg fr z w = Some w' \<Longrightarrow> pin_inv w'"
  by (auto simp: view_zoom_round_def pin_inv_drop_zoom pin_inv_view_zoom_step
      split: option.splits view_plan.splits)

lemma pin_inv_view_rounds:
  "pin_inv w \<Longrightarrow> vf_tiles fr \<Longrightarrow> view_rounds ops cfg fr zs w = Some w' \<Longrightarrow> pin_inv w'"
proof (induction zs arbitrary: w)
  case Nil
  then show ?case by simp
next
  case (Cons z zs)
  then show ?case
    by (auto split: option.splits dest: pin_inv_view_round)
qed

lemma pin_inv_view_composite:
  assumes "pin_inv w" "vf_tiles fr" "view_composite ops cfg fr w = Some w'"
  shows "pin_inv w'"
proof -
  let ?w1 = "fold (\<lambda>z v. if z < vf_minTileZoom fr \<or> z > vf_maxTileZoom fr
                            then drop_zoom (vf_tiles fr) z v
                            else if vf_noCoverage fr z then drop_zoom (vf_tiles fr) z v
                            else v)
                 (map fst (byZoom (cur w))) w"
  have "pin_inv ?w1"
    by (rule fold_pin_inv) (simp_all add: assms pin_inv_drop_zoom)
  with assms(2,3) show ?thesis
    by (auto simp: view_composite_def Let_def dest: pin_inv_view_rounds)
qed

lemma clear_fold_effect:
  "this_state (fold (\<lambda>(z, st) v. v\<lparr>pins := unpin_keys t (activeKeys st) (pins v),
                                     gpu := gpu v @ [RtDispose (rt st)]\<rparr>) zs w) = this_state w"
  by (induction zs arbitrary: w) (auto simp: split_beta)

lemma clear_fold_pins:
  "list_all (\<lambda>zs. distinct (activeKeys (snd zs))) zs \<Longrightarrow>
   pins (fold (\<lambda>(z, st) v. v\<lparr>pins := unpin_keys True (activeKeys st) (pins v),
                                     gpu := gpu v @ [RtDispose (rt st)]\<rparr>) zs w) k
     = pins w k - int (holding k (map (\<lambda>zs. (fst zs, activeKeys (snd zs))) zs))"
proof (induction zs arbitrary: w)
  case Nil
  then show ?case by (simp add: holding_def)
next
  case (Cons p zs)
  obtain z st where p: "p = (z, st)" by (cases p)
  from Cons p show ?case
    by (simp add: unpin_keys_at holding_Cons)
qed

lemma pin_inv_clear: "pin_inv w \<Longrightarrow> pin_inv (clear True w)"
proof -
  assume inv: "pin_inv w"
  then have d: "list_all (\<lambda>zs. distinct (activeKeys (snd zs))) (byZoom (cur w))"
    by (simp add: pin_inv_def balanced_def akeys_def list_all_iff)
  from inv have p: "pins w k = int (holding k (akeys (cur w)))" for k
    by (simp add: pin_inv_def balanced_def)
  have "pins (clear True w) k = 0" for k
    using clear_fold_pins [OF d, of w k] p [of k]
    by (simp add: clear_def Let_def akeys_def)
  moreover have "akeys (cur (clear True w)) = []"
    by (simp add: clear_def Let_def akeys_def empty_atlas_def)
  ultimately show ?thesis
    by (simp add: pin_inv_def balanced_def holding_def)
qed

lemma activeKeys_place_texture [simp]: "activeKeys (place_texture c t st) = activeKeys st"
  by (simp add: place_texture_def Let_def split: option.splits)

lemma akeys_note_cell_size [simp]: "akeys (note_cell_size cfg z t a) = akeys a"
  by (simp add: note_cell_size_def Let_def split: option.splits)

lemma byZoom_note_cell_size [simp]: "byZoom (note_cell_size cfg z t a) = byZoom a"
  by (simp add: note_cell_size_def Let_def split: option.splits)

lemma akeys_update_same:
  "map_of (byZoom a) z = Some st \<Longrightarrow> activeKeys st' = activeKeys st \<Longrightarrow>
     akeys (a\<lparr>byZoom := AList.update z st' (byZoom a)\<rparr>) = akeys a"
proof -
  assume a: "map_of (byZoom a) z = Some st" "activeKeys st' = activeKeys st"
  then have "map_of (akeys a) z = Some (activeKeys st')" by (simp add: map_of_akeys)
  then have "AList.update z (activeKeys st') (akeys a) = akeys a" by (rule update_triv)
  then show ?thesis by (simp add: akeys_update)
qed

lemma fetch_then_effect:
  "this_state (fetch_then cfg f t w) = this_state w"
  "pins (fetch_then cfg f t w) = pins w"
  "akeys (heap (fetch_then cfg f t w) b) = akeys (heap w b)"
proof -
  show "this_state (fetch_then cfg f t w) = this_state w"
    by (simp add: fetch_then_def Let_def split: option.splits)
  show "pins (fetch_then cfg f t w) = pins w"
    by (simp add: fetch_then_def Let_def split: option.splits)
  show "akeys (heap (fetch_then cfg f t w) b) = akeys (heap w b)"
  proof (cases "map_of (byZoom (heap w (fAtlas f))) (fZoom f)")
    case None
    then show ?thesis by (simp add: fetch_then_def Let_def)
  next
    case (Some st)
    have "akeys ((note_cell_size cfg (fZoom f) t (heap w (fAtlas f)))
             \<lparr>byZoom := AList.update (fZoom f) (place_texture (fCand f) t st)
                 (byZoom (note_cell_size cfg (fZoom f) t (heap w (fAtlas f))))\<rparr>)
           = akeys (heap w (fAtlas f))"
      using akeys_update_same [of "note_cell_size cfg (fZoom f) t (heap w (fAtlas f))" "fZoom f" st
          "place_texture (fCand f) t st"] Some
      by simp
    with Some show ?thesis by (simp add: fetch_then_def Let_def)
  qed
qed

lemma fetch_finally_effect:
  "this_state (fetch_finally f w) = this_state w"
  "pins (fetch_finally f w) = pins w"
  "akeys (heap (fetch_finally f w) b) = akeys (heap w b)"
proof -
  show "this_state (fetch_finally f w) = this_state w"
    by (simp add: fetch_finally_def Let_def split: option.splits)
  show "pins (fetch_finally f w) = pins w"
    by (simp add: fetch_finally_def Let_def split: option.splits)
  show "akeys (heap (fetch_finally f w) b) = akeys (heap w b)"
  proof (cases "map_of (byZoom (heap w (fAtlas f))) (fZoom f)")
    case None
    then show ?thesis by (simp add: fetch_finally_def Let_def)
  next
    case (Some st)
    with akeys_update_same [of "heap w (fAtlas f)" "fZoom f" st
          "st\<lparr>loads := AList.delete (ckey (fCand f)) (loads st)\<rparr>"]
    show ?thesis by (simp add: fetch_finally_def Let_def)
  qed
qed

lemma heap_inflight_upd [simp]: "heap (w\<lparr>inflight := x\<rparr>) = heap w"
  by simp

lemma settle_effect:
  "this_state (settle cfg i out w) = this_state w"
  "pins (settle cfg i out w) = pins w"
  "akeys (heap (settle cfg i out w) b) = akeys (heap w b)"
  by (simp_all add: settle_def Let_def fetch_then_effect fetch_finally_effect
      split: option.splits outcome.splits)

lemma pin_inv_settle: "pin_inv w \<Longrightarrow> pin_inv (settle cfg i out w)"
  by (simp add: pin_inv_def cur_def settle_effect)

lemma pin_inv_init: "pin_inv init_world"
  by (simp add: pin_inv_def init_world_def cur_def akeys_def empty_atlas_def balanced_empty)

lemma akeys_debounce [simp]: "akeys (fst (debounce_gate i c a)) = akeys a"
  by (simp add: akeys_def)

lemma pin_inv_clear_if_any: "pin_inv w \<Longrightarrow> pin_inv (clear_if_any True w)"
  by (simp add: clear_if_any_def pin_inv_clear)

lemma pin_inv_gates:
  assumes "pin_inv w" "g_tiles i" "update_gates i w = Inr (w', r)"
  shows "pin_inv w'"
proof (cases "g_enabled i")
  case False
  with assms show ?thesis by (auto simp: update_gates_def pin_inv_clear_if_any)
next
  case True
  with assms(3) obtain c where c: "g_camera i = Some c"
    by (auto simp: update_gates_def split: option.splits)
  show ?thesis
  proof (cases "too_high i c")
    case high: True
    with assms True c show ?thesis by (auto simp: gates_too_high pin_inv_clear_if_any)
  next
    case low: False
    from assms(3) have "this_state w' = this_state w \<and> pins w' = pins w
        \<and> akeys (cur w') = akeys (cur w)"
      by (auto simp: gates_open [OF True c low] Let_def split: if_splits)
    with assms(1) show ?thesis by (simp add: pin_inv_def)
  qed
qed

lemma sourced_pin_inv: "sourced w \<Longrightarrow> pin_inv w"
proof (induction rule: sourced.induct)
  case s_init
  show ?case by (rule pin_inv_init)
next
  case (s_gates w i w' r)
  then show ?case by (blast intro: pin_inv_gates)
next
  case (s_trap w fr ops cfg)
  then show ?case by (simp add: pin_inv_trap_composite)
next
  case (s_view w fr ops cfg w')
  then show ?case by (blast intro: pin_inv_view_composite)
next
  case (s_clear w)
  then show ?case by (simp add: pin_inv_clear)
next
  case (s_settle w cfg i out)
  then show ?case by (simp add: pin_inv_settle)
qed

text \<open>
  As long as every frame and every \<open>clear\<close> finds a tile source, the net number of
  pins over unpins the atlas has made for a key is the number of zoom states that hold
  the key in their active set.
\<close>

lemma sourced_pins_balance: "sourced w \<Longrightarrow> pins w k = int (holders (cur w) k)"
  using sourced_pin_inv [of w] by (simp add: pin_inv_def balanced_def holders_def)

text \<open>
  Claim C2 asks that every key a zoom state pinned is unpinned exactly once, when it
  drops out of the desired set or when the state is disposed of, with no pin leaked. In
  the first run below two tiles are wanted at zoom 14 and pinned; the next frame finds
  no tile source and wants only the second tile, so the first leaves the active set with
  no unpin; the frame after it, with a source again, wants nothing at zoom 14 and
  disposes of the state. No state is left and \<open>clear\<close> finds nothing to unpin, yet the
  first tile is still pinned once. Had the middle frame found the source, the balance of
  the first tile would have been zero after it. In the second run the one frame without
  a source puts a tile into the active set without a pin, and the disposal in the next
  frame unpins it: its balance is minus one.
\<close>

theorem pin_leak_without_source_run:
  "reachable ex_world_leak
   \<and> pins ex_world_a (ex_key 14 100 50) = 1
   \<and> holders (cur ex_world_a) (ex_key 14 100 50) = 1
   \<and> pins (trap_composite ex_ops ex_cfg (ex_frame_other\<lparr>tf_tiles := False\<rparr>) ex_world_a)
         (ex_key 14 100 50) = 1
   \<and> holders (cur (trap_composite ex_ops ex_cfg (ex_frame_other\<lparr>tf_tiles := False\<rparr>) ex_world_a))
         (ex_key 14 100 50) = 0
   \<and> byZoom (cur ex_world_leak) = []
   \<and> pins ex_world_leak (ex_key 14 100 50) = 1
   \<and> pins ex_world_leak (ex_key 14 101 50) = 0
   \<and> pins (clear True ex_world_leak) (ex_key 14 100 50) = 1
   \<and> pins ex_world_a2 (ex_key 14 100 50) = 0
   \<and> reachable ex_world_unpinned
   \<and> byZoom (cur ex_world_unpinned) = []
   \<and> pins ex_world_unpinned (ex_key 14 100 50) = - 1"
proof -
  have r1: "reachable ex_world_leak"
    unfolding ex_world_leak_def ex_world_a_def by (rule r_trap, rule r_trap, rule r_trap, rule r_init)
  have r2: "reachable ex_world_unpinned"
    unfolding ex_world_unpinned_def by (rule r_trap, rule r_trap, rule r_init)
  have e: "pins ex_world_a (ex_key 14 100 50) = 1
   \<and> holders (cur ex_world_a) (ex_key 14 100 50) = 1
   \<and> pins (trap_composite ex_ops ex_cfg (ex_frame_other\<lparr>tf_tiles := False\<rparr>) ex_world_a)
         (ex_key 14 100 50) = 1
   \<and> holders (cur (trap_composite ex_ops ex_cfg (ex_frame_other\<lparr>tf_tiles := False\<rparr>) ex_world_a))
         (ex_key 14 100 50) = 0
   \<and> byZoom (cur ex_world_leak) = []
   \<and> pins ex_world_leak (ex_key 14 100 50) = 1
   \<and> pins ex_world_leak (ex_key 14 101 50) = 0
   \<and> pins (clear True ex_world_leak) (ex_key 14 100 50) = 1
   \<and> pins ex_world_a2 (ex_key 14 100 50) = 0
   \<and> byZoom (cur ex_world_unpinned) = []
   \<and> pins ex_world_unpinned (ex_key 14 100 50) = - 1"
    by code_simp
  from r1 r2 e show ?thesis by blast
qed

subsection \<open>Completions that come too late\<close>

lemma strip_update_same:
  "map_of al z = Some st \<Longrightarrow> sans_loads st' = sans_loads st \<Longrightarrow>
     map (\<lambda>zs. (fst zs, sans_loads (snd zs))) (AList.update z st' al)
       = map (\<lambda>zs. (fst zs, sans_loads (snd zs))) al"
  by (induction al) (auto split: if_splits)

lemma note_cell_size_frame:
  "byZoom (note_cell_size cfg z t a) = byZoom a"
  "lastUpdate (note_cell_size cfg z t a) = lastUpdate a"
  "lastView (note_cell_size cfg z t a) = lastView a"
  "lastMoveAt (note_cell_size cfg z t a) = lastMoveAt a"
  "z' \<noteq> z \<Longrightarrow> map_of (pendingCellSizeByZoom (note_cell_size cfg z t a)) z'
                 = map_of (pendingCellSizeByZoom a) z'"
  by (simp_all add: note_cell_size_def Let_def update_conv split: option.splits)

lemma fetch_then_turned_away:
  assumes "turned_away w f"
  shows "fetch_then cfg f t w
           = set_atlas (fAtlas f) (note_cell_size cfg (fZoom f) t (heap w (fAtlas f))) w"
  using assms
  by (simp add: fetch_then_def turned_away_def Let_def note_cell_size_frame split: option.splits)

lemma fetch_finally_frame:
  "this_state (fetch_finally f w) = this_state w"
  "pins (fetch_finally f w) = pins w"
  "gpu (fetch_finally f w) = gpu w"
  "nextRt (fetch_finally f w) = nextRt w"
  "nextFetch (fetch_finally f w) = nextFetch w"
  "inflight (fetch_finally f w) = inflight w"
  "b \<noteq> fAtlas f \<Longrightarrow> heap (fetch_finally f w) b = heap w b"
  "pendingCellSizeByZoom (heap (fetch_finally f w) (fAtlas f))
     = pendingCellSizeByZoom (heap w (fAtlas f))"
  "lastUpdate (heap (fetch_finally f w) (fAtlas f)) = lastUpdate (heap w (fAtlas f))"
  "lastView (heap (fetch_finally f w) (fAtlas f)) = lastView (heap w (fAtlas f))"
  "lastMoveAt (heap (fetch_finally f w) (fAtlas f)) = lastMoveAt (heap w (fAtlas f))"
  by (simp_all add: fetch_finally_def Let_def set_atlas_def split: option.splits)

lemma fetch_finally_sans_loads:
  "map (\<lambda>zs. (fst zs, sans_loads (snd zs))) (byZoom (heap (fetch_finally f w) (fAtlas f)))
     = map (\<lambda>zs. (fst zs, sans_loads (snd zs))) (byZoom (heap w (fAtlas f)))"
proof (cases "map_of (byZoom (heap w (fAtlas f))) (fZoom f)")
  case None
  then show ?thesis by (simp add: fetch_finally_def Let_def)
next
  case (Some st)
  have "sans_loads (st\<lparr>loads := AList.delete (ckey (fCand f)) (loads st)\<rparr>) = sans_loads st"
    by (simp add: sans_loads_def)
  from strip_update_same [OF Some this] Some show ?thesis
    by (simp add: fetch_finally_def Let_def set_atlas_def)
qed

text \<open>
  A completion that the handler's test turns away binds nothing: whether the fetch
  succeeded or failed, the pins, the render targets, the current atlas object and every
  other atlas object are as before, and in the fetch's own atlas every zoom state is as
  before apart from its map of loads, the pending cell sizes of the other zooms are as
  before and so are the stamps of the gates.
\<close>

lemma turned_away_frame:
  assumes "find (\<lambda>g. fid g = i) (inflight w) = Some f" and "turned_away w f"
  shows "this_state (settle cfg i out w) = this_state w
       \<and> pins (settle cfg i out w) = pins w
       \<and> gpu (settle cfg i out w) = gpu w
       \<and> nextRt (settle cfg i out w) = nextRt w
       \<and> nextFetch (settle cfg i out w) = nextFetch w
       \<and> inflight (settle cfg i out w) = filter (\<lambda>g. fid g \<noteq> i) (inflight w)
       \<and> (\<forall>b. b \<noteq> fAtlas f \<longrightarrow> heap (settle cfg i out w) b = heap w b)
       \<and> map (\<lambda>zs. (fst zs, sans_loads (snd zs))) (byZoom (heap (settle cfg i out w) (fAtlas f)))
           = map (\<lambda>zs. (fst zs, sans_loads (snd zs))) (byZoom (heap w (fAtlas f)))
       \<and> (\<forall>z. z \<noteq> fZoom f \<longrightarrow>
             map_of (pendingCellSizeByZoom (heap (settle cfg i out w) (fAtlas f))) z
               = map_of (pendingCellSizeByZoom (heap w (fAtlas f))) z)
       \<and> lastUpdate (heap (settle cfg i out w) (fAtlas f)) = lastUpdate (heap w (fAtlas f))
       \<and> lastView (heap (settle cfg i out w) (fAtlas f)) = lastView (heap w (fAtlas f))
       \<and> lastMoveAt (heap (settle cfg i out w) (fAtlas f)) = lastMoveAt (heap w (fAtlas f))"
proof -
  let ?w1 = "w\<lparr>inflight := filter (\<lambda>g. fid g \<noteq> i) (inflight w)\<rparr>"
  have st: "turned_away ?w1 f" using assms(2) by (simp add: turned_away_def)
  show ?thesis
  proof (cases out)
    case Rejected
    with assms(1) show ?thesis
      by (simp add: settle_def Let_def fetch_finally_frame fetch_finally_sans_loads)
  next
    case (Resolved t)
    with assms(1) show ?thesis
      by (simp add: settle_def Let_def fetch_finally_frame fetch_finally_sans_loads
          fetch_then_turned_away [OF st] set_atlas_def note_cell_size_frame)
  qed
qed


subsection \<open>Runs of the compositor\<close>

text \<open>
  Claim C1 asks for a grid size capped by the GPU limit. The run below has two tiles of
  one row wanted at zoom 14, sixteen columns apart, with mipmaps on, 256-pixel cells and
  a GPU limit of 4096. After the viewport selector the grid is capped at 16 cells and
  the render target is 4096 pixels wide. After the trapezoid selector the grid is the
  uncapped power of two 32 and the render target asked for is 8192 pixels wide.
\<close>

theorem trapezoid_grid_uncapped_run:
  "maxRTSize (Some 4096) (Some 4096) = 4096
   \<and> tile_bounds ex_wide = Some (100, 50, 116, 50)
   \<and> trap_gridSize True (100, 50, 116, 50) = 32
   \<and> gpu (trap_composite ex_ops ex_cfg ex_frame_wide init_world) = [RtCreate 0 8192, RtRender 0]
   \<and> maxGridForCell True 4096 256 = Some 16
   \<and> map_option gpu (view_composite ex_ops ex_cfg ex_view_wide init_world)
        = Some [RtCreate 0 4096, RtRender 0]"
  by code_simp

text \<open>
  Claim C4 asks for at most \<open>mapDrapeAtlasMaxNewLoadsPerTick\<close> new fetches in a frame,
  over all zooms. The run below has a quota of 1, nothing in flight, and one tile that is
  neither resident nor loading at each of the zooms 14 and 13. One frame of either
  selector issues two fetches, one per zoom.
\<close>

theorem quota_counts_per_zoom_run:
  "maxNewLoadsPerTick ex_ops = 1
   \<and> inflight init_world = []
   \<and> map (\<lambda>f. (fid f, fZoom f)) (inflight (trap_composite ex_ops ex_cfg ex_frame_b init_world))
        = [(0, 14), (1, 13)]
   \<and> map_option (\<lambda>w. map (\<lambda>f. (fid f, fZoom f)) (inflight w))
        (view_composite ex_ops ex_cfg ex_view_b init_world) = Some [(0, 14), (1, 13)]"
  by code_simp

text \<open>
  Claim C10 asks for at most one fetch in flight per key within a zoom state. In the run
  below a tile is wanted (fetch 0), not wanted for one frame (the state of zoom 14 is
  disposed of), and wanted again (a new state, fetch 1). Fetch 0 then fails: its
  \<open>finally\<close> handler removes the key from the loads map of the state now registered at
  zoom 14, which holds fetch 1. The next frame finds the key absent and issues fetch 2:
  the same state, with render target 1 throughout, has fetches 1 and 2 in flight for the
  one key.
\<close>

theorem second_fetch_in_flight_run:
  "map (\<lambda>(z, st). (z, rt st, loads st)) (byZoom (cur ex_world_c3))
        = [(14, 1, [(ex_key 14 100 50, 1)])]
   \<and> map fid (inflight ex_world_c3) = [0, 1]
   \<and> map (\<lambda>(z, st). (z, rt st, loads st)) (byZoom (cur (settle ex_cfg 0 Rejected ex_world_c3)))
        = [(14, 1, [])]
   \<and> map fid (inflight (settle ex_cfg 0 Rejected ex_world_c3)) = [1]
   \<and> map (\<lambda>(z, st). (z, rt st, loads st)) (byZoom (cur ex_world_c5))
        = [(14, 1, [(ex_key 14 100 50, 2)])]
   \<and> map (\<lambda>f. (fid f, fZoom f, ckey (fCand f))) (inflight ex_world_c5)
     = [(1, 14, ex_key 14 100 50), (2, 14, ex_key 14 100 50)]"
  by code_simp

end
